theory Spec2Isabelle
  imports Complex_Main "HOL-Library.Word"
begin

unbundle bit_operations_syntax

section \<open>JavaScript values used by jsolines\<close>

text \<open>
  The newest source of the library (the file with \<open>followLoop\<close>, \<open>ensureFractionIsNumber\<close>,
  \<open>interpolate\<close>, \<open>noInterpolate\<close> and \<open>getContour\<close>) is the program modelled here.

  A JavaScript number is a finite value, one of the two infinities, or NaN. Finite values
  are read as the real numbers they denote: rounding, overflow of finite arithmetic and the
  sign of zero are not modelled (a zero divisor behaves as \<open>+0\<close>, which is what the
  subtraction of two equal finite numbers yields).
\<close>

datatype jsnum = Fin real | Infinity | NegInfinity | NaN

text \<open>The relational operator \<open><\<close> on numbers: false as soon as one side is NaN.\<close>

fun js_lt :: "jsnum \<Rightarrow> jsnum \<Rightarrow> bool" where
  "js_lt NaN b = False"
| "js_lt a NaN = False"
| "js_lt (Fin a) (Fin b) = (a < b)"
| "js_lt (Fin a) Infinity = True"
| "js_lt (Fin a) NegInfinity = False"
| "js_lt Infinity b = False"
| "js_lt NegInfinity NegInfinity = False"
| "js_lt NegInfinity b = True"

fun js_sub :: "jsnum \<Rightarrow> jsnum \<Rightarrow> jsnum" where
  "js_sub NaN b = NaN"
| "js_sub a NaN = NaN"
| "js_sub (Fin a) (Fin b) = Fin (a - b)"
| "js_sub (Fin a) Infinity = NegInfinity"
| "js_sub (Fin a) NegInfinity = Infinity"
| "js_sub Infinity Infinity = NaN"
| "js_sub Infinity b = Infinity"
| "js_sub NegInfinity NegInfinity = NaN"
| "js_sub NegInfinity b = NegInfinity"

fun js_add :: "jsnum \<Rightarrow> jsnum \<Rightarrow> jsnum" where
  "js_add NaN b = NaN"
| "js_add a NaN = NaN"
| "js_add (Fin a) (Fin b) = Fin (a + b)"
| "js_add (Fin a) Infinity = Infinity"
| "js_add (Fin a) NegInfinity = NegInfinity"
| "js_add Infinity NegInfinity = NaN"
| "js_add Infinity b = Infinity"
| "js_add NegInfinity Infinity = NaN"
| "js_add NegInfinity b = NegInfinity"

fun js_div :: "jsnum \<Rightarrow> jsnum \<Rightarrow> jsnum" where
  "js_div NaN b = NaN"
| "js_div a NaN = NaN"
| "js_div (Fin a) (Fin b) =
     (if b = 0 then (if a = 0 then NaN else if 0 < a then Infinity else NegInfinity)
      else Fin (a / b))"
| "js_div (Fin a) Infinity = Fin 0"
| "js_div (Fin a) NegInfinity = Fin 0"
| "js_div Infinity (Fin b) = (if 0 \<le> b then Infinity else NegInfinity)"
| "js_div NegInfinity (Fin b) = (if 0 \<le> b then NegInfinity else Infinity)"
| "js_div a b = NaN"

text \<open>The global \<open>isNaN\<close> and the test \<open>frac === Infinity\<close>.\<close>

definition isNaN :: "jsnum \<Rightarrow> bool" where
  "isNaN v = (v = NaN)"


subsection \<open>Typed arrays\<close>

text \<open>
  A \<open>Uint8Array\<close> is a list of bytes. Its constructor throws a RangeError on a negative
  length, a read outside the array yields \<open>undefined\<close> (here \<open>None\<close>) and a write outside
  the array is ignored.
\<close>

type_synonym u8 = "8 word"

datatype error = RangeError | TypeError

definition new_Uint8Array :: "int \<Rightarrow> error + u8 list" where
  "new_Uint8Array n = (if n < 0 then Inl RangeError else Inr (replicate (nat n) 0))"

definition u8_load :: "u8 list \<Rightarrow> int \<Rightarrow> u8 option" where
  "u8_load a i = (if 0 \<le> i \<and> i < int (length a) then Some (a ! nat i) else None)"

definition u8_store :: "u8 list \<Rightarrow> int \<Rightarrow> u8 \<Rightarrow> u8 list" where
  "u8_store a i v = (if 0 \<le> i \<and> i < int (length a) then a[nat i := v] else a)"

text \<open>
  A sample of the surface used as a number: \<open>undefined\<close> converts to NaN both under \<open><\<close>
  and under \<open>-\<close>, the only two operations the program applies to a sample.
\<close>

definition surface_at :: "u8 list \<Rightarrow> int \<Rightarrow> jsnum" where
  "surface_at surface i =
     (case u8_load surface i of None \<Rightarrow> NaN | Some v \<Rightarrow> Fin (real (unat v)))"

section \<open>The contour grid (\<open>getContour\<close>)\<close>

text \<open>
  The body of the two nested loops of \<open>getContour\<close> for one cell: the four comparisons,
  the four boundary assignments in the order of the source, and the packing of the case
  index with \<open>|=\<close> and \<open><<\<close> on 32-bit integers.
\<close>

definition contour_idx :: "u8 list \<Rightarrow> int \<Rightarrow> int \<Rightarrow> jsnum \<Rightarrow> int \<Rightarrow> int \<Rightarrow> 32 word" where
  "contour_idx surface width height cutoff x y =
     (let index = y * width + x;
          topLeft = js_lt (surface_at surface index) cutoff;
          topRight = js_lt (surface_at surface (index + 1)) cutoff;
          botLeft = js_lt (surface_at surface (index + width)) cutoff;
          botRight = js_lt (surface_at surface (index + width + 1)) cutoff;
          (topLeft, botLeft) = (if x = 0 then (False, False) else (topLeft, botLeft));
          (topRight, botRight) = (if x = width - 2 then (False, False) else (topRight, botRight));
          (topLeft, topRight) = (if y = 0 then (False, False) else (topLeft, topRight));
          (botRight, botLeft) = (if y = height - 2 then (False, False) else (botRight, botLeft));
          idx = 0;
          idx = (if topLeft then idx OR push_bit 3 1 else idx);
          idx = (if topRight then idx OR push_bit 2 1 else idx);
          idx = (if botRight then idx OR push_bit 1 1 else idx);
          idx = (if botLeft then idx OR 1 else idx)
      in idx)"

text \<open>
  \<open>getContour\<close>: the outer loop runs over \<open>x\<close>, the inner one over \<open>y\<close>; each cell's index
  is stored (converted to a byte) at \<open>y * (width - 1) + x\<close>.
\<close>

definition getContour :: "u8 list \<Rightarrow> int \<Rightarrow> int \<Rightarrow> jsnum \<Rightarrow> error + u8 list" where
  "getContour surface width height cutoff =
     (case new_Uint8Array ((width - 1) * (height - 1)) of
        Inl e \<Rightarrow> Inl e
      | Inr contour \<Rightarrow>
          Inr (fold (\<lambda>x contour.
                 fold (\<lambda>y contour.
                        u8_store contour (y * (width - 1) + x)
                          (ucast (contour_idx surface width height cutoff x y)))
                      [0..height - 2] contour)
               [0..width - 2] contour))"

section \<open>Following the loop (\<open>followLoop\<close>)\<close>

text \<open>Diagnostics written with \<open>logError\<close>, one constructor per message of the source.\<close>

datatype diag =
    RingCrossesRing int int "u8 option"
  | LastFewIndices "u8 option list"
  | RanOffOutsideOfRing
  | Case5WrongDirection
  | Case10WrongDirection
  | SegmentFractionIs string jsnum
  | UnexpectedCoordinateShift int int int int
  | RingCoordinatesExceed int
  | NoFittingShellForHole

text \<open>
  \<open>followLoop\<close> returns the next cell together with what it logged. A case index without a
  \<open>case\<close> label (0, 15 and everything above) falls out of the \<open>switch\<close>: the function
  returns \<open>undefined\<close>, here \<open>None\<close>.
\<close>

definition followLoop :: "u8 \<Rightarrow> int \<Rightarrow> int \<Rightarrow> int \<Rightarrow> int \<Rightarrow> (int \<times> int) option \<times> diag list" where
  "followLoop idx prevx prevy x y =
     (if idx = 1 then (Some (x - 1, y), [])
      else if idx = 2 then (Some (x, y + 1), [])
      else if idx = 3 then (Some (x - 1, y), [])
      else if idx = 4 then (Some (x + 1, y), [])
      else if idx = 5 then
        (if prevy > y then (Some (x + 1, y), [])
         else if prevy < y then (Some (x - 1, y), [])
         else (Some (x, y), [Case5WrongDirection]))
      else if idx = 6 then (Some (x, y + 1), [])
      else if idx = 7 then (Some (x - 1, y), [])
      else if idx = 8 then (Some (x, y - 1), [])
      else if idx = 9 then (Some (x, y - 1), [])
      else if idx = 10 then
        (if prevx < x then (Some (x, y + 1), [])
         else if prevx > x then (Some (x, y - 1), [])
         else (Some (x, y), [Case10WrongDirection]))
      else if idx = 11 then (Some (x, y - 1), [])
      else if idx = 12 then (Some (x + 1, y), [])
      else if idx = 13 then (Some (x + 1, y), [])
      else if idx = 14 then (Some (x, y + 1), [])
      else (None, []))"

section \<open>The interpolator\<close>

type_synonym coordinate = "jsnum \<times> jsnum"

text \<open>
  \<open>ensureFractionIsNumber\<close> returns the fraction to use and what it logged (the source's
  parameter \<open>frac\<close> is called \<open>fraction\<close> here).
\<close>

definition ensureFractionIsNumber :: "jsnum \<Rightarrow> string \<Rightarrow> jsnum \<times> diag list" where
  "ensureFractionIsNumber fraction direction =
     (if isNaN fraction \<or> fraction = Infinity
      then (Fin (1 / 2), [SegmentFractionIs direction fraction])
      else (fraction, []))"

text \<open>
  The first half of \<open>interpolate\<close>: the four corner samples of cell \<open>(x, y)\<close> after the
  four conditional assignments, in the order of the source. The result is
  \<open>(topLeft, topRight, botLeft, botRight)\<close>.
\<close>

definition interpolate_corners ::
  "jsnum \<Rightarrow> int \<Rightarrow> u8 list \<Rightarrow> int \<Rightarrow> int \<Rightarrow> int \<Rightarrow> jsnum \<times> jsnum \<times> jsnum \<times> jsnum" where
  "interpolate_corners cutoff height surface width x y =
     (let index = y * width + x;
          topLeft = surface_at surface index;
          topRight = surface_at surface (index + 1);
          botLeft = surface_at surface (index + width);
          botRight = surface_at surface (index + width + 1);
          (topLeft, botLeft) = (if x = 0 then (cutoff, cutoff) else (topLeft, botLeft));
          (topLeft, topRight) = (if y = 0 then (cutoff, cutoff) else (topLeft, topRight));
          (botRight, botLeft) = (if y = height - 2 then (cutoff, cutoff) else (botRight, botLeft));
          (topRight, botRight) = (if x = width - 2 then (cutoff, cutoff) else (topRight, botRight))
      in (topLeft, topRight, botLeft, botRight))"

text \<open>
  The second half: the edge crossed is found by comparing the previous cell
  \<open>(startx, starty)\<close> with the new one; without a match the function returns \<open>undefined\<close>.
\<close>

definition interpolate_crossing ::
  "jsnum \<Rightarrow> int \<Rightarrow> int \<Rightarrow> int \<Rightarrow> int \<Rightarrow> jsnum \<times> jsnum \<times> jsnum \<times> jsnum
     \<Rightarrow> coordinate option \<times> diag list" where
  "interpolate_crossing cutoff startx starty x y corners =
     (case corners of (topLeft, topRight, botLeft, botRight) \<Rightarrow>
        if startx < x then
          (case ensureFractionIsNumber
                  (js_div (js_sub cutoff topLeft) (js_sub botLeft topLeft)) ''left'' of
             (fraction, msgs) \<Rightarrow> (Some (Fin (of_int x), js_add (Fin (of_int y)) fraction), msgs))
        else if startx > x then
          (case ensureFractionIsNumber
                  (js_div (js_sub cutoff topRight) (js_sub botRight topRight)) ''right'' of
             (fraction, msgs) \<Rightarrow> (Some (Fin (of_int (x + 1)), js_add (Fin (of_int y)) fraction), msgs))
        else if starty > y then
          (case ensureFractionIsNumber
                  (js_div (js_sub cutoff botLeft) (js_sub botRight botLeft)) ''bottom'' of
             (fraction, msgs) \<Rightarrow> (Some (js_add (Fin (of_int x)) fraction, Fin (of_int (y + 1))), msgs))
        else if starty < y then
          (case ensureFractionIsNumber
                  (js_div (js_sub cutoff topLeft) (js_sub topRight topLeft)) ''top'' of
             (fraction, msgs) \<Rightarrow> (Some (js_add (Fin (of_int x)) fraction, Fin (of_int y)), msgs))
        else (None, []))"

definition interpolate ::
  "jsnum \<Rightarrow> int \<Rightarrow> int \<Rightarrow> int \<Rightarrow> u8 list \<Rightarrow> int \<Rightarrow> int \<Rightarrow> int \<Rightarrow> coordinate option \<times> diag list" where
  "interpolate cutoff height startx starty surface width x y =
     interpolate_crossing cutoff startx starty x y
       (interpolate_corners cutoff height surface width x y)"



definition noInterpolate :: "int \<Rightarrow> int \<Rightarrow> int \<Rightarrow> int \<Rightarrow> coordinate option" where
  "noInterpolate startx starty x y =
     (if startx < x then Some (Fin (of_int x), Fin (of_int y + 1 / 2))
      else if startx > x then Some (Fin (of_int (x + 1)), Fin (of_int y + 1 / 2))
      else if starty > y then Some (Fin (of_int x + 1 / 2), Fin (of_int (y + 1)))
      else if starty < y then Some (Fin (of_int x + 1 / 2), Fin (of_int y))
      else None)"

section \<open>The ring tracer\<close>

text \<open>
  The arguments of \<open>jsolines\<close>. \<open>maxCoordinates\<close> is an integer (its default is
  \<open>MAX_COORDS\<close>); \<open>project\<close> is the caller's pure projection of a coordinate.
\<close>

definition MAX_COORDS :: int where
  "MAX_COORDS = 20000"

record 'p params =
  cutoff :: jsnum
  height :: int
  maxCoordinates :: int
  project :: "coordinate \<Rightarrow> 'p"
  interpolation :: bool
  surface :: "u8 list"
  width :: int

text \<open>
  A GeoJSON polygon is represented by its \<open>geometry.coordinates\<close>: a list of rings, each a
  list of projected coordinates. The variables shared by the whole scan:
\<close>

type_synonym 'p polygon = "'p list list"

record 'p tracer =
  found :: "u8 list"
  indices :: "u8 option list"
  shells :: "'p polygon list"
  holes :: "'p polygon list"
  logged :: "diag list"

text \<open>The variables of one trace (\<open>curx\<close>, \<open>cury\<close> are the source's \<open>x\<close>, \<open>y\<close>).\<close>

record 'p cursor =
  curx :: int
  cury :: int
  prevx :: int
  prevy :: int
  startx :: int
  starty :: int
  direction :: int
  coords :: "'p list"
  idx :: "u8 option"

datatype outcome = Continue | Break | Throw error

text \<open>
  One pass through the body of \<open>while (true)\<close>, in four parts. First part: the guard
  against a visited cell, the bookkeeping of the previous and the current cell, the
  mark in \<open>found\<close> and the guard against the cases 0 and 15.
\<close>

definition ring_enter ::
  "'p params \<Rightarrow> u8 list \<Rightarrow> 'p tracer \<Rightarrow> 'p cursor
     \<Rightarrow> (outcome \<times> 'p tracer \<times> 'p cursor) + ('p tracer \<times> 'p cursor)" where
  "ring_enter P contour g l =
     (let cWidth = width P - 1 in
      if u8_load (found g) (cury l * cWidth + curx l) = Some 1 then
        Inl (Break,
             g\<lparr>logged := logged g @
                  [RingCrossesRing (curx l) (cury l) (idx l),
                   LastFewIndices (drop (length (indices g) - 10) (indices g))]\<rparr>,
             l)
      else
        (let l = l\<lparr>prevx := startx l, prevy := starty l\<rparr>;
             l = l\<lparr>startx := curx l, starty := cury l\<rparr>;
             l = l\<lparr>idx := u8_load contour (cury l * cWidth + curx l)\<rparr>;
             g = g\<lparr>indices := indices g @ [idx l]\<rparr>;
             g = (if idx l \<noteq> Some 5 \<and> idx l \<noteq> Some 10
                  then g\<lparr>found := u8_store (found g) (cury l * cWidth + curx l) 1\<rparr>
                  else g)
         in if idx l = Some 0 \<or> idx l = Some 15
            then Inl (Break, g\<lparr>logged := logged g @ [RanOffOutsideOfRing]\<rparr>, l)
            else Inr (g, l)))"

text \<open>
  Second part: the call of \<open>followLoop\<close>, the destructuring assignment of its result
  (a TypeError when the result is \<open>undefined\<close>) and the winding direction.
\<close>

definition ring_follow ::
  "'p tracer \<Rightarrow> 'p cursor \<Rightarrow> (outcome \<times> 'p tracer \<times> 'p cursor) + ('p tracer \<times> 'p cursor)" where
  "ring_follow g l =
     (case idx l of
        None \<Rightarrow> Inl (Throw TypeError, g, l)
      | Some i \<Rightarrow>
          (case followLoop i (prevx l) (prevy l) (curx l) (cury l) of
             (None, msgs) \<Rightarrow> Inl (Throw TypeError, g\<lparr>logged := logged g @ msgs\<rparr>, l)
           | (Some (x', y'), msgs) \<Rightarrow>
               (let g = g\<lparr>logged := logged g @ msgs\<rparr>;
                    l = l\<lparr>curx := x', cury := y'\<rparr>;
                    l = l\<lparr>direction := direction l + (curx l - startx l) * (cury l + starty l)\<rparr>
                in Inr (g, l))))"

text \<open>
  Third part: the coordinate of the crossing, the abort when there is none, and
  \<open>coords.push(project(coord))\<close>.
\<close>

definition ring_coord :: "'p params \<Rightarrow> 'p cursor \<Rightarrow> coordinate option \<times> diag list" where
  "ring_coord P l =
     (if interpolation P
      then interpolate (cutoff P) (height P) (startx l) (starty l) (surface P) (width P)
             (curx l) (cury l)
      else (noInterpolate (startx l) (starty l) (curx l) (cury l), []))"

definition ring_shift ::
  "'p params \<Rightarrow> 'p tracer \<Rightarrow> 'p cursor
     \<Rightarrow> (outcome \<times> 'p tracer \<times> 'p cursor) + ('p tracer \<times> 'p cursor)" where
  "ring_shift P g l =
     (case ring_coord P l of
        (coord, msgs) \<Rightarrow>
          (let g = g\<lparr>logged := logged g @ msgs\<rparr> in
           case coord of
             None \<Rightarrow>
               Inl (Break,
                    g\<lparr>logged := logged g @
                         [UnexpectedCoordinateShift (startx l) (starty l) (curx l) (cury l)]\<rparr>,
                    l)
           | Some c \<Rightarrow> Inr (g, l\<lparr>coords := coords l @ [project P c]\<rparr>)))"

text \<open>Fourth part: the size guard and the closing of the ring.\<close>

definition ring_finish ::
  "'p params \<Rightarrow> int \<Rightarrow> int \<Rightarrow> 'p tracer \<Rightarrow> 'p cursor \<Rightarrow> outcome \<times> 'p tracer \<times> 'p cursor" where
  "ring_finish P origx origy g l =
     (if int (length (coords l)) > maxCoordinates P then
        (Break, g\<lparr>logged := logged g @ [RingCoordinatesExceed (maxCoordinates P)]\<rparr>, l)
      else if curx l = origx \<and> cury l = origy then
        (let l = l\<lparr>coords := coords l @ [coords l ! 0]\<rparr>;
             geom = [coords l]
         in if direction l > 0
            then (Break, g\<lparr>shells := shells g @ [geom]\<rparr>, l)
            else (Break, g\<lparr>holes := holes g @ [geom]\<rparr>, l))
      else (Continue, g, l))"

text \<open>
  The pass up to and including the \<open>push\<close> of the new coordinate (\<open>Inl\<close> when the pass
  ended before), and the whole pass.
\<close>

definition ring_advance ::
  "'p params \<Rightarrow> u8 list \<Rightarrow> 'p tracer \<Rightarrow> 'p cursor
     \<Rightarrow> (outcome \<times> 'p tracer \<times> 'p cursor) + ('p tracer \<times> 'p cursor)" where
  "ring_advance P contour g l =
     (case ring_enter P contour g l of
        Inl r \<Rightarrow> Inl r
      | Inr (g1, l1) \<Rightarrow>
          (case ring_follow g1 l1 of
             Inl r \<Rightarrow> Inl r
           | Inr (g2, l2) \<Rightarrow> ring_shift P g2 l2))"

definition ring_iter ::
  "'p params \<Rightarrow> u8 list \<Rightarrow> int \<Rightarrow> int \<Rightarrow> 'p tracer \<Rightarrow> 'p cursor
     \<Rightarrow> outcome \<times> 'p tracer \<times> 'p cursor" where
  "ring_iter P contour origx origy g l =
     (case ring_advance P contour g l of
        Inl r \<Rightarrow> r
      | Inr (g3, l3) \<Rightarrow> ring_finish P origx origy g3 l3)"

text \<open>
  A pass that continues has appended one coordinate and has stayed within
  \<open>maxCoordinates\<close>; this bounds the number of passes of the loop.
\<close>

lemma ring_enter_Inl: "ring_enter P contour g l = Inl r \<Longrightarrow> fst r = Break"
  by (auto simp: ring_enter_def Let_def split: if_splits)

lemma ring_enter_coords: "ring_enter P contour g l = Inr (g1, l1) \<Longrightarrow> coords l1 = coords l"
  by (auto simp: ring_enter_def Let_def split: if_splits)

lemma ring_follow_Inl: "ring_follow g1 l1 = Inl r \<Longrightarrow> fst r = Throw TypeError"
  by (auto simp: ring_follow_def Let_def split: option.splits prod.splits)

lemma ring_follow_coords: "ring_follow g1 l1 = Inr (g2, l2) \<Longrightarrow> coords l2 = coords l1"
  by (auto simp: ring_follow_def Let_def split: option.splits prod.splits)

lemma ring_shift_Inl: "ring_shift P g2 l2 = Inl r \<Longrightarrow> fst r = Break"
  by (auto simp: ring_shift_def Let_def split: option.splits prod.splits)

lemma ring_shift_coords:
  "ring_shift P g2 l2 = Inr (g3, l3) \<Longrightarrow> length (coords l3) = Suc (length (coords l2))"
  by (auto simp: ring_shift_def Let_def split: option.splits prod.splits)

lemma ring_advance_Inl: "ring_advance P contour g l = Inl r \<Longrightarrow> fst r \<noteq> Continue"
  by (auto simp: ring_advance_def split: sum.splits prod.splits
      dest: ring_enter_Inl ring_follow_Inl ring_shift_Inl)

lemma ring_advance_coords:
  "ring_advance P contour g l = Inr (g3, l3) \<Longrightarrow> length (coords l3) = Suc (length (coords l))"
proof -
  assume "ring_advance P contour g l = Inr (g3, l3)"
  then obtain g1 l1 g2 l2 where
    "ring_enter P contour g l = Inr (g1, l1)" "ring_follow g1 l1 = Inr (g2, l2)"
    "ring_shift P g2 l2 = Inr (g3, l3)"
    by (auto simp: ring_advance_def split: sum.splits prod.splits)
  then show ?thesis
    using ring_enter_coords ring_follow_coords ring_shift_coords by metis
qed

lemma ring_finish_Continue:
  "ring_finish P origx origy g3 l3 = (Continue, g', l') \<Longrightarrow>
     g' = g3 \<and> l' = l3 \<and> int (length (coords l3)) \<le> maxCoordinates P"
  by (auto simp: ring_finish_def Let_def split: if_splits)

lemma ring_iter_Continue:
  assumes "ring_iter P contour origx origy g l = (Continue, g', l')"
  shows "length (coords l') = Suc (length (coords l))"
    and "int (length (coords l')) \<le> maxCoordinates P"
proof -
  from assms obtain g3 l3 where
    a: "ring_advance P contour g l = Inr (g3, l3)" and
    f: "ring_finish P origx origy g3 l3 = (Continue, g', l')"
    by (auto simp: ring_iter_def split: sum.splits prod.splits dest: ring_advance_Inl)
  from ring_finish_Continue [OF f] ring_advance_coords [OF a]
  show "length (coords l') = Suc (length (coords l))"
    and "int (length (coords l')) \<le> maxCoordinates P"
    by simp_all
qed

text \<open>
  The loop \<open>while (true)\<close>: it returns how the last pass ended (\<open>Break\<close> or a thrown error)
  and the shared variables.
\<close>

function ring_while ::
  "'p params \<Rightarrow> u8 list \<Rightarrow> int \<Rightarrow> int \<Rightarrow> 'p tracer \<Rightarrow> 'p cursor \<Rightarrow> outcome \<times> 'p tracer" where
  "ring_while P contour origx origy g l =
     (let r = ring_iter P contour origx origy g l in
      if fst r = Continue
      then ring_while P contour origx origy (fst (snd r)) (snd (snd r))
      else (fst r, fst (snd r)))"
  by pat_completeness auto
termination
proof (relation "measure (\<lambda>(P, contour, origx, origy, g, l).
                   nat (maxCoordinates P + 1 - int (length (coords l))))")
  show "wf (measure (\<lambda>(P, contour, origx, origy, g, l).
              nat (maxCoordinates (P :: 'p params) + 1 - int (length (coords (l :: 'p cursor))))))"
    by simp
next
  fix P :: "'p params" and contour origx origy and g :: "'p tracer" and l :: "'p cursor" and r
  assume r: "r = ring_iter P contour origx origy g l" and c: "fst r = Continue"
  then have "ring_iter P contour origx origy g l = (Continue, fst (snd r), snd (snd r))"
    by (metis prod.collapse)
  from ring_iter_Continue [OF this]
  show "((P, contour, origx, origy, fst (snd r), snd (snd r)), (P, contour, origx, origy, g, l))
          \<in> measure (\<lambda>(P, contour, origx, origy, g, l).
                nat (maxCoordinates P + 1 - int (length (coords l))))"
    by (simp add: case_prod_beta)
qed

declare ring_while.simps [simp del]

text \<open>
  The state after \<open>n\<close> passes that all continued, if the loop gets that far: the states a
  trace goes through.
\<close>

fun ring_steps ::
  "nat \<Rightarrow> 'p params \<Rightarrow> u8 list \<Rightarrow> int \<Rightarrow> int \<Rightarrow> 'p tracer \<Rightarrow> 'p cursor
     \<Rightarrow> ('p tracer \<times> 'p cursor) option" where
  "ring_steps 0 P contour origx origy g l = Some (g, l)"
| "ring_steps (Suc n) P contour origx origy g l =
     (case ring_iter P contour origx origy g l of
        (Continue, g', l') \<Rightarrow> ring_steps n P contour origx origy g' l'
      | _ \<Rightarrow> None)"

section \<open>The scan\<close>

text \<open>A \<open>for\<close> loop whose body may throw: the first error ends it.\<close>

fun for_each :: "('s \<Rightarrow> 'a \<Rightarrow> error + 's) \<Rightarrow> 'a list \<Rightarrow> 's \<Rightarrow> error + 's" where
  "for_each body [] s = Inr s"
| "for_each body (a # as) s =
     (case body s a of Inl e \<Rightarrow> Inl e | Inr s' \<Rightarrow> for_each body as s')"

text \<open>The variables of a trace that starts at \<open>(origx, origy)\<close>.\<close>

definition cursor_at :: "int \<Rightarrow> int \<Rightarrow> u8 option \<Rightarrow> 'p cursor" where
  "cursor_at origx origy i =
     \<lparr>curx = origx, cury = origy, prevx = - 1, prevy = - 1, startx = - 1, starty = - 1,
      direction = 0, coords = [], idx = i\<rparr>"

text \<open>The body of the inner \<open>for\<close> loop over \<open>origx\<close>.\<close>

definition scan_cell ::
  "'p params \<Rightarrow> u8 list \<Rightarrow> int \<Rightarrow> 'p tracer \<Rightarrow> int \<Rightarrow> error + 'p tracer" where
  "scan_cell P contour origy g origx =
     (let cWidth = width P - 1 in
      if u8_load (found g) (origy * cWidth + origx) = Some 1 then Inr g
      else
        (let i = u8_load contour (origy * cWidth + origx) in
         if i = Some 0 \<or> i = Some 5 \<or> i = Some 10 \<or> i = Some 15 then Inr g
         else
           (case ring_while P contour origx origy g (cursor_at origx origy i) of
              (Throw e, g') \<Rightarrow> Inl e
            | (out, g') \<Rightarrow> Inr g')))"

section \<open>The nester\<close>

text \<open>\<open>Array.prototype.find\<close>, as the position of the first element that satisfies the test.\<close>

fun find_index :: "('a \<Rightarrow> bool) \<Rightarrow> 'a list \<Rightarrow> nat option" where
  "find_index p [] = None"
| "find_index p (a # as) = (if p a then Some 0 else map_option Suc (find_index p as))"

text \<open>
  The body of \<open>holes.forEach\<close>. The imported point-in-polygon test is the parameter
  \<open>inside\<close>: it takes the hole's first coordinate and a shell's current
  \<open>geometry.coordinates\<close>. Reading the first coordinate of a hole without a ring is a
  TypeError, and the library rejects the missing first coordinate of an empty ring.
\<close>

definition nest_hole ::
  "('p \<Rightarrow> 'p polygon \<Rightarrow> bool) \<Rightarrow> 'p tracer \<Rightarrow> 'p polygon \<Rightarrow> error + 'p tracer" where
  "nest_hole inside g hole =
     (case hole of
        [] \<Rightarrow> Inl TypeError
      | ring # rest \<Rightarrow>
          (case ring of
             [] \<Rightarrow> Inl TypeError
           | holePoint # others \<Rightarrow>
               (case find_index (\<lambda>shell. inside holePoint shell) (shells g) of
                  Some k \<Rightarrow> Inr (g\<lparr>shells := (shells g)[k := shells g ! k @ [hole ! 0]]\<rparr>)
                | None \<Rightarrow> Inr (g\<lparr>logged := logged g @ [NoFittingShellForHole]\<rparr>))))"

section \<open>\<open>jsolines\<close>\<close>

text \<open>The returned MultiPolygon feature, with everything that was logged on the way.\<close>

record 'p feature =
  coordinates :: "'p polygon list"
  diagnostics :: "diag list"

definition jsolines :: "('p \<Rightarrow> 'p polygon \<Rightarrow> bool) \<Rightarrow> 'p params \<Rightarrow> error + 'p feature" where
  "jsolines inside P =
     (case getContour (surface P) (width P) (height P) (cutoff P) of
        Inl e \<Rightarrow> Inl e
      | Inr contour \<Rightarrow>
          (case new_Uint8Array ((width P - 1) * (height P - 1)) of
             Inl e \<Rightarrow> Inl e
           | Inr found0 \<Rightarrow>
               (case for_each
                       (\<lambda>g origy. for_each (scan_cell P contour origy) [0..width P - 2] g)
                       [0..height P - 2]
                       \<lparr>found = found0, indices = [], shells = [], holes = [], logged = []\<rparr> of
                  Inl e \<Rightarrow> Inl e
                | Inr g \<Rightarrow>
                    (case for_each (nest_hole inside) (holes g) g of
                       Inl e \<Rightarrow> Inl e
                     | Inr g' \<Rightarrow>
                         Inr \<lparr>coordinates = shells g', diagnostics = logged g'\<rparr>))))"

section \<open>Example runs\<close>

text \<open>
  Small inputs on which the definitions are run; the projection is the identity. The
  first is a 3 by 3 surface with one sample below the cutoff 60 in the middle: its contour
  grid has the four cells 2, 1, 4, 8, and the only ring goes through them in the order
  2, 4, 8, 1.
\<close>

definition dot_surface :: "u8 list" where
  "dot_surface = [100, 100, 100,  100, 0, 100,  100, 100, 100]"

definition dot_params :: "int \<Rightarrow> coordinate params" where
  "dot_params m =
     \<lparr>cutoff = Fin 60, height = 3, maxCoordinates = m, project = (\<lambda>c. c),
      interpolation = False, surface = dot_surface, width = 3\<rparr>"

definition dot_contour :: "u8 list" where
  "dot_contour = [2, 1, 4, 8]"

definition fresh_tracer :: "nat \<Rightarrow> coordinate tracer" where
  "fresh_tracer n = \<lparr>found = replicate n 0, indices = [], shells = [], holes = [], logged = []\<rparr>"

definition dot_tracer :: "u8 list \<Rightarrow> u8 option list \<Rightarrow> coordinate tracer" where
  "dot_tracer f is = \<lparr>found = f, indices = is, shells = [], holes = [], logged = []\<rparr>"

definition dot_ring :: "coordinate list" where
  "dot_ring = [(Fin (1 / 2), Fin 1), (Fin 1, Fin (3 / 2)), (Fin (3 / 2), Fin 1), (Fin 1, Fin (1 / 2))]"

definition dot_cursor :: "int \<Rightarrow> coordinate cursor" where
  "dot_cursor d =
     \<lparr>curx = 1, cury = 0, prevx = 0, prevy = 1, startx = 1, starty = 1, direction = d,
      coords = take 3 dot_ring, idx = Some 8\<rparr>"

definition dot_cursor_last :: "int \<Rightarrow> coordinate list \<Rightarrow> coordinate cursor" where
  "dot_cursor_last d cs =
     \<lparr>curx = 0, cury = 0, prevx = 1, prevy = 1, startx = 1, starty = 0, direction = d,
      coords = cs, idx = Some 1\<rparr>"

lemma dot_contour_eq: "getContour dot_surface 3 3 (Fin 60) = Inr dot_contour"
  by code_simp

text \<open>The states of the trace after two and after three passes.\<close>

lemma dot_steps_2:
  "ring_steps 2 (dot_params 2) dot_contour 0 0 (fresh_tracer 4) (cursor_at 0 0 (Some 2)) =
     Some (dot_tracer [1, 0, 1, 0] [Some 2, Some 4],
           \<lparr>curx = 1, cury = 1, prevx = 0, prevy = 0, startx = 0, starty = 1, direction = 2,
              coords = take 2 dot_ring, idx = Some 4\<rparr>)"
  by code_simp

lemma dot_advance_3:
  "ring_advance (dot_params 2) dot_contour (dot_tracer [1, 0, 1, 0] [Some 2, Some 4])
     \<lparr>curx = 1, cury = 1, prevx = 0, prevy = 0, startx = 0, starty = 1, direction = 2,
        coords = take 2 dot_ring, idx = Some 4\<rparr> =
   Inr (dot_tracer [1, 0, 1, 1] [Some 2, Some 4, Some 8], dot_cursor 2)"
  by code_simp

lemma dot_steps_3:
  "ring_steps 3 (dot_params MAX_COORDS) dot_contour 0 0 (fresh_tracer 4) (cursor_at 0 0 (Some 2)) =
     Some (dot_tracer [1, 0, 1, 1] [Some 2, Some 4, Some 8], dot_cursor 2)"
  by code_simp

lemma jsolines_dot_params:
  "jsolines (\<lambda>pt shell. True) (dot_params 2) =
     Inr \<lparr>coordinates = [],
          diagnostics = [RingCoordinatesExceed 2, RingCrossesRing 0 0 (Some 1),
                         LastFewIndices [Some 2, Some 4, Some 8, Some 1]]\<rparr>"
  "jsolines (\<lambda>pt shell. True) (dot_params 4) =
     Inr \<lparr>coordinates = [[dot_ring @ [dot_ring ! 0]]], diagnostics = []\<rparr>"
  by code_simp+

text \<open>
  The second is a 5 by 5 surface that lies below the cutoff except for its middle sample:
  the region touches every edge of the grid, and the middle sample makes a hole.
\<close>

definition ring_surface :: "u8 list" where
  "ring_surface =
     [0, 0, 0, 0, 0,  0, 0, 0, 0, 0,  0, 0, 100, 0, 0,  0, 0, 0, 0, 0,  0, 0, 0, 0, 0]"

definition ring_params :: "coordinate params" where
  "ring_params =
     \<lparr>cutoff = Fin 60, height = 5, maxCoordinates = MAX_COORDS, project = (\<lambda>c. c),
      interpolation = True, surface = ring_surface, width = 5\<rparr>"

definition ring_shell :: "coordinate list" where
  "ring_shell =
     [(Fin 0, Fin 1), (Fin 0, Fin 2), (Fin 0, Fin 3), (Fin 1, Fin 4), (Fin 2, Fin 4),
      (Fin 3, Fin 4), (Fin 4, Fin 3), (Fin 4, Fin 2), (Fin 4, Fin 1), (Fin 3, Fin 0),
      (Fin 2, Fin 0), (Fin 1, Fin 0), (Fin 0, Fin 1)]"

definition ring_hole :: "coordinate list" where
  "ring_hole =
     [(Fin 2, Fin (8 / 5)), (Fin (12 / 5), Fin 2), (Fin 2, Fin (12 / 5)), (Fin (8 / 5), Fin 2),
      (Fin 2, Fin (8 / 5))]"

lemma jsolines_ring_params:
  "jsolines (\<lambda>pt shell. True) ring_params =
     Inr \<lparr>coordinates = [[ring_shell, ring_hole]], diagnostics = []\<rparr>"
  by code_simp

text \<open>
  The third is a contour grid written by hand, with a saddle to the right of a cell of
  case 4, so that the saddle is entered from the left.
\<close>

definition saddle_params :: "coordinate params" where
  "saddle_params =
     \<lparr>cutoff = Fin 60, height = 2, maxCoordinates = MAX_COORDS, project = (\<lambda>c. c),
      interpolation = False, surface = [], width = 3\<rparr>"

definition saddle_tracer :: "u8 option list \<Rightarrow> diag list \<Rightarrow> coordinate tracer" where
  "saddle_tracer is ds = \<lparr>found = [1, 0], indices = is, shells = [], holes = [], logged = ds\<rparr>"

definition saddle_cursor :: "int \<Rightarrow> int \<Rightarrow> int \<Rightarrow> u8 \<Rightarrow> coordinate cursor" where
  "saddle_cursor px py sx i =
     \<lparr>curx = 1, cury = 0, prevx = px, prevy = py, startx = sx, starty = 0, direction = 0,
      coords = [(Fin 1, Fin (1 / 2))], idx = Some i\<rparr>"

lemma saddle_steps:
  "ring_steps 1 saddle_params [4, 5] 0 0 (fresh_tracer 2) (cursor_at 0 0 (Some 4)) =
     Some (saddle_tracer [Some 4] [], saddle_cursor (- 1) (- 1) 0 4)"
  "ring_enter saddle_params [4, 5] (saddle_tracer [Some 4] []) (saddle_cursor (- 1) (- 1) 0 4) =
     Inr (saddle_tracer [Some 4, Some 5] [], saddle_cursor 0 0 1 5)"
  "ring_follow (saddle_tracer [Some 4, Some 5] []) (saddle_cursor 0 0 1 5) =
     Inr (saddle_tracer [Some 4, Some 5] [Case5WrongDirection], saddle_cursor 0 0 1 5)"
  by code_simp+


text \<open>
  A surface of width 4 and height 4 whose inner block of four samples lies below the
  cutoff 60, the fourth input.
\<close>

definition block_surface :: "u8 list" where
  "block_surface = [100, 100, 100, 100,  100, 0, 0, 100,  100, 0, 0, 100,  100, 100, 100, 100]"

lemma getContour_block_surface:
  "getContour block_surface 4 4 (Fin 60) = Inr [2, 3, 1, 6, 15, 9, 4, 12, 8]"
  by code_simp

lemma getContour_block_surface_0:
  "getContour block_surface 4 4 (Fin 0) = Inr [0, 0, 0, 0, 0, 0, 0, 0, 0]"
  by code_simp








section \<open>Properties of the contour grid\<close>

lemma length_u8_store [simp]: "length (u8_store a i v) = length a"
  by (simp add: u8_store_def)

lemma u8_store_nth_eq:
  "0 \<le> i \<Longrightarrow> i < int (length a) \<Longrightarrow> u8_store a i v ! nat i = v"
  by (simp add: u8_store_def)

lemma u8_store_nth_neq:
  "0 \<le> i \<Longrightarrow> 0 \<le> j \<Longrightarrow> i \<noteq> j \<Longrightarrow> u8_store a i v ! nat j = a ! nat j"
  by (simp add: u8_store_def)

lemma fold_u8_store_length [simp]:
  "length (fold (\<lambda>k a. u8_store a (f k) (v k)) ks a) = length a"
  by (induction ks arbitrary: a) simp_all

text \<open>
  A loop of stores at pairwise different positions leaves at each position the value
  stored for it.
\<close>

lemma fold_u8_store_nth:
  assumes "k0 \<in> set ks" and "inj_on f (set ks)" and "0 \<le> f k0" and "f k0 < int (length a)"
  shows "fold (\<lambda>k a. u8_store a (f k) (v k)) ks a ! nat (f k0) = v k0"
  using assms
proof (induction ks rule: rev_induct)
  case Nil
  then show ?case by simp
next
  case (snoc k ks)
  show ?case
  proof (cases "k = k0")
    case True
    with snoc.prems show ?thesis by (simp add: u8_store_nth_eq)
  next
    case False
    with snoc.prems have in_ks: "k0 \<in> set ks" and ne: "f k \<noteq> f k0"
      by (auto simp: inj_on_def)
    from snoc.prems have "inj_on f (set ks)" by (simp add: inj_on_def)
    with snoc.IH in_ks snoc.prems
    have "fold (\<lambda>k a. u8_store a (f k) (v k)) ks a ! nat (f k0) = v k0" by simp
    moreover have "0 \<le> f k \<or> f k < 0" by linarith
    ultimately show ?thesis using ne snoc.prems(3)
      by (auto simp: u8_store_nth_neq) (simp add: u8_store_def)
  qed
qed

lemma fold_fold_product:
  "fold (\<lambda>x a. fold (\<lambda>y a. F x y a) ys a) xs a0 =
   fold (\<lambda>(x, y) a. F x y a) (List.product xs ys) a0"
proof (induction xs arbitrary: a0)
  case Nil
  then show ?case by simp
next
  case (Cons x xs)
  have "fold (\<lambda>(x, y). F x y) (map (Pair x) ys) a0 = fold (\<lambda>y. F x y) ys a0"
    by (simp add: fold_map comp_def)
  with Cons show ?case by simp
qed

lemma cell_index_inj:
  fixes m :: int
  assumes "0 \<le> x" "x < m" "0 \<le> x'" "x' < m" "y * m + x = y' * m + x'"
  shows "x = x' \<and> y = y'"
proof -
  have "(y * m + x) mod m = x" "(y' * m + x') mod m = x'"
    using assms(1-4) by simp_all
  moreover from assms(5) have "(y * m + x) mod m = (y' * m + x') mod m" by simp
  ultimately have x: "x = x'" by simp
  with assms have "y * m = y' * m" by simp
  with assms have "y = y'" by simp
  with x show ?thesis by simp
qed

lemma cell_index_bound:
  fixes w h :: int
  assumes "0 \<le> x" "x < w - 1" "0 \<le> y" "y < h - 1"
  shows "0 \<le> y * (w - 1) + x" and "y * (w - 1) + x < (w - 1) * (h - 1)"
proof -
  from assms show "0 \<le> y * (w - 1) + x" by simp
  from assms have "y + 1 \<le> h - 1" by simp
  moreover from assms have "0 \<le> w - 1" by simp
  ultimately have "(y + 1) * (w - 1) \<le> (h - 1) * (w - 1)"
    by (rule mult_right_mono)
  with assms show "y * (w - 1) + x < (w - 1) * (h - 1)"
    by (simp add: algebra_simps)
qed

text \<open>The entry of the contour grid for cell \<open>(x, y)\<close> is the index computed for that cell.\<close>

lemma getContour_nth:
  assumes gc: "getContour sf w h c = Inr contour"
    and x: "0 \<le> x" "x < w - 1" and y: "0 \<le> y" "y < h - 1"
  shows "contour ! nat (y * (w - 1) + x) = ucast (contour_idx sf w h c x y)"
proof -
  let ?f = "\<lambda>(x, y). y * (w - 1) + x"
  let ?v = "\<lambda>(x, y). (ucast (contour_idx sf w h c x y) :: u8)"
  let ?ks = "List.product [0..w - 2] [0..h - 2]"
  let ?a = "replicate (nat ((w - 1) * (h - 1))) (0 :: u8)"
  from x y have nonneg: "\<not> (w - 1) * (h - 1) < 0"
    by (simp add: not_less)
  from gc nonneg have "contour =
      fold (\<lambda>x a. fold (\<lambda>y a. u8_store a (y * (w - 1) + x) (ucast (contour_idx sf w h c x y)))
        [0..h - 2] a) [0..w - 2] ?a"
    by (auto simp: getContour_def new_Uint8Array_def)
  also have "\<dots> =
      fold (\<lambda>(x, y) a. u8_store a (y * (w - 1) + x) (ucast (contour_idx sf w h c x y))) ?ks ?a"
    by (rule fold_fold_product)
  also have "\<dots> = fold (\<lambda>k a. u8_store a (?f k) (?v k)) ?ks ?a"
    by (simp add: case_prod_unfold)
  finally have eq: "contour = fold (\<lambda>k a. u8_store a (?f k) (?v k)) ?ks ?a" .
  have mem: "(x, y) \<in> set ?ks" using x y by simp
  have inj: "inj_on ?f (set ?ks)"
  proof (rule inj_onI)
    fix p q assume p: "p \<in> set ?ks" and q: "q \<in> set ?ks" and pq: "?f p = ?f q"
    obtain px py qx qy where [simp]: "p = (px, py)" "q = (qx, qy)"
      by (cases p, cases q) auto
    from p q have "0 \<le> px" "px < w - 1" "0 \<le> qx" "qx < w - 1" by simp_all
    moreover from pq have "py * (w - 1) + px = qy * (w - 1) + qx" by simp
    ultimately have "px = qx \<and> py = qy" by (rule cell_index_inj)
    then show "p = q" by simp
  qed
  from cell_index_bound [OF x y]
  have b: "0 \<le> ?f (x, y)" "?f (x, y) < int (length ?a)" by simp_all
  from fold_u8_store_nth [OF mem inj b, of ?v] eq show ?thesis by simp
qed

text \<open>The index of a cell, with the boundary assignments folded into the four flags.\<close>

lemma contour_idx_flags:
  "contour_idx sf w h c x y =
     (if js_lt (surface_at sf (y * w + x)) c \<and> x \<noteq> 0 \<and> y \<noteq> 0 then 8 else 0) OR
     (if js_lt (surface_at sf (y * w + x + 1)) c \<and> x \<noteq> w - 2 \<and> y \<noteq> 0 then 4 else 0) OR
     (if js_lt (surface_at sf (y * w + x + w + 1)) c \<and> x \<noteq> w - 2 \<and> y \<noteq> h - 2
      then 2 else 0) OR
     (if js_lt (surface_at sf (y * w + x + w)) c \<and> x \<noteq> 0 \<and> y \<noteq> h - 2 then 1 else 0)"
  unfolding contour_idx_def Let_def
  by (cases "x = 0"; cases "x = w - 2"; cases "y = 0"; cases "y = h - 2"; simp)

lemma flag_bit: "bit (if A then k else (0 :: 32 word)) n \<longleftrightarrow> A \<and> bit k n"
  by simp

lemma bit_flags:
  "bit (8 :: 32 word) n \<longleftrightarrow> n = 3" "bit (4 :: 32 word) n \<longleftrightarrow> n = 2"
  "bit (2 :: 32 word) n \<longleftrightarrow> n = 1" "bit (1 :: 32 word) n \<longleftrightarrow> n = 0"
proof -
  have "(8 :: 32 word) = push_bit 3 1" "(4 :: 32 word) = push_bit 2 1"
    "(2 :: 32 word) = push_bit 1 1"
    by simp_all
  then show "bit (8 :: 32 word) n \<longleftrightarrow> n = 3" "bit (4 :: 32 word) n \<longleftrightarrow> n = 2"
    "bit (2 :: 32 word) n \<longleftrightarrow> n = 1"
    by (auto simp only: bit_push_bit_iff bit_1_iff possible_bit_word len_of_numeral_defs)
  show "bit (1 :: 32 word) n \<longleftrightarrow> n = 0" by (simp add: bit_1_iff)
qed

lemma contour_idx_bit:
  "bit (ucast (contour_idx sf w h c x y) :: u8) n \<longleftrightarrow>
     (n = 3 \<and> js_lt (surface_at sf (y * w + x)) c \<and> x \<noteq> 0 \<and> y \<noteq> 0) \<or>
     (n = 2 \<and> js_lt (surface_at sf (y * w + x + 1)) c \<and> x \<noteq> w - 2 \<and> y \<noteq> 0) \<or>
     (n = 1 \<and> js_lt (surface_at sf (y * w + x + w + 1)) c \<and> x \<noteq> w - 2 \<and> y \<noteq> h - 2) \<or>
     (n = 0 \<and> js_lt (surface_at sf (y * w + x + w)) c \<and> x \<noteq> 0 \<and> y \<noteq> h - 2)"
  unfolding contour_idx_flags bit_ucast_iff bit_or_iff flag_bit bit_flags
  by auto

lemma js_lt_irrefl: "\<not> js_lt v v"
  by (cases v) simp_all

text \<open>
  Claim C2. For every cell \<open>(x, y)\<close> with \<open>0 \<le> x < width - 1\<close> and \<open>0 \<le> y < height - 1\<close>
  the entry of the contour grid is a 4-bit value: bit 3 is set iff the top-left sample is
  strictly less than the cutoff, bit 2 iff the top-right one is, bit 1 iff the bottom-right
  one is and bit 0 iff the bottom-left one is, each after the boundary forcing; no higher
  bit is set, and a sample equal to the cutoff sets no bit.
\<close>

theorem getContour_case_bits:
  assumes "getContour sf w h c = Inr contour"
    and "0 \<le> x" and "x < w - 1" and "0 \<le> y" and "y < h - 1"
  shows "(bit (contour ! nat (y * (w - 1) + x)) 3 \<longleftrightarrow>
            js_lt (surface_at sf (y * w + x)) c \<and> x \<noteq> 0 \<and> y \<noteq> 0) \<and>
         (bit (contour ! nat (y * (w - 1) + x)) 2 \<longleftrightarrow>
            js_lt (surface_at sf (y * w + x + 1)) c \<and> x \<noteq> w - 2 \<and> y \<noteq> 0) \<and>
         (bit (contour ! nat (y * (w - 1) + x)) 1 \<longleftrightarrow>
            js_lt (surface_at sf (y * w + x + w + 1)) c \<and> x \<noteq> w - 2 \<and> y \<noteq> h - 2) \<and>
         (bit (contour ! nat (y * (w - 1) + x)) 0 \<longleftrightarrow>
            js_lt (surface_at sf (y * w + x + w)) c \<and> x \<noteq> 0 \<and> y \<noteq> h - 2) \<and>
         (\<forall>n. 4 \<le> n \<longrightarrow> \<not> bit (contour ! nat (y * (w - 1) + x)) n) \<and>
         (surface_at sf (y * w + x) = c \<longrightarrow> \<not> bit (contour ! nat (y * (w - 1) + x)) 3) \<and>
         (surface_at sf (y * w + x + 1) = c \<longrightarrow> \<not> bit (contour ! nat (y * (w - 1) + x)) 2) \<and>
         (surface_at sf (y * w + x + w + 1) = c \<longrightarrow>
            \<not> bit (contour ! nat (y * (w - 1) + x)) 1) \<and>
         (surface_at sf (y * w + x + w) = c \<longrightarrow> \<not> bit (contour ! nat (y * (w - 1) + x)) 0)"
proof -
  have v: "contour ! nat (y * (w - 1) + x) = ucast (contour_idx sf w h c x y)"
    using assms by (rule getContour_nth)
  show ?thesis
    unfolding v contour_idx_bit by (auto simp: js_lt_irrefl)
qed

text \<open>
  The inner cell of the block surface has all four samples below the cutoff 60 and all
  four bits set; with the cutoff 0 the same samples equal the cutoff and no bit is set.
\<close>

theorem getContour_case_bits_witness:
  "getContour block_surface 4 4 (Fin 60) = Inr [2, 3, 1, 6, 15, 9, 4, 12, 8] \<and>
   bit (15 :: u8) 3 \<and> bit (15 :: u8) 2 \<and> bit (15 :: u8) 1 \<and> bit (15 :: u8) 0 \<and>
   js_lt (surface_at block_surface 5) (Fin 60) \<and>
   js_lt (surface_at block_surface 6) (Fin 60) \<and>
   js_lt (surface_at block_surface 10) (Fin 60) \<and>
   js_lt (surface_at block_surface 9) (Fin 60) \<and>
   getContour block_surface 4 4 (Fin 0) = Inr [0, 0, 0, 0, 0, 0, 0, 0, 0] \<and>
   surface_at block_surface 5 = Fin 0 \<and> \<not> bit (0 :: u8) 3"
proof -
  have s: "surface_at block_surface 5 = Fin 0"
    by (simp add: surface_at_def u8_load_def block_surface_def)
  from getContour_case_bits [OF getContour_block_surface_0, of 1 1] s
  have "\<not> bit (0 :: u8) 3" by simp
  with getContour_case_bits [OF getContour_block_surface, of 1 1] getContour_block_surface
    getContour_block_surface_0 s
  show ?thesis by simp
qed

text \<open>
  Claim C3. In a cell that touches the boundary of the grid the bits of the corners on
  that side are clear whatever the samples are: \<open>x = 0\<close> clears the bits of top-left and
  bottom-left (3 and 0), \<open>x = width - 2\<close> those of top-right and bottom-right (2 and 1),
  \<open>y = 0\<close> those of top-left and top-right (3 and 2), \<open>y = height - 2\<close> those of
  bottom-left and bottom-right (0 and 1).
\<close>

theorem getContour_boundary_forced:
  assumes "getContour sf w h c = Inr contour"
    and "0 \<le> x" and "x < w - 1" and "0 \<le> y" and "y < h - 1"
  shows "(x = 0 \<longrightarrow> \<not> bit (contour ! nat (y * (w - 1) + x)) 3 \<and>
                     \<not> bit (contour ! nat (y * (w - 1) + x)) 0) \<and>
         (x = w - 2 \<longrightarrow> \<not> bit (contour ! nat (y * (w - 1) + x)) 2 \<and>
                         \<not> bit (contour ! nat (y * (w - 1) + x)) 1) \<and>
         (y = 0 \<longrightarrow> \<not> bit (contour ! nat (y * (w - 1) + x)) 3 \<and>
                     \<not> bit (contour ! nat (y * (w - 1) + x)) 2) \<and>
         (y = h - 2 \<longrightarrow> \<not> bit (contour ! nat (y * (w - 1) + x)) 0 \<and>
                         \<not> bit (contour ! nat (y * (w - 1) + x)) 1)"
proof -
  have v: "contour ! nat (y * (w - 1) + x) = ucast (contour_idx sf w h c x y)"
    using assms by (rule getContour_nth)
  show ?thesis
    unfolding v contour_idx_bit by simp
qed

text \<open>
  In the block surface the cell \<open>(0, 0)\<close> has its bottom-right sample below the cutoff and
  the cell \<open>(2, 2)\<close> its top-left one; the bits of the forced corners are clear.
\<close>

theorem getContour_boundary_forced_witness:
  "getContour block_surface 4 4 (Fin 60) = Inr [2, 3, 1, 6, 15, 9, 4, 12, 8] \<and>
   \<not> bit (2 :: u8) 3 \<and> \<not> bit (2 :: u8) 0 \<and> \<not> bit (2 :: u8) 2 \<and>
   \<not> bit (8 :: u8) 2 \<and> \<not> bit (8 :: u8) 1 \<and> \<not> bit (8 :: u8) 0"
  using getContour_boundary_forced [OF getContour_block_surface, of 0 0]
    getContour_boundary_forced [OF getContour_block_surface, of 2 2]
    getContour_block_surface
  by simp

section \<open>Properties of \<open>followLoop\<close>\<close>

text \<open>
  Claim C1. The next cell follows the fixed table: the cases 1, 3 and 7 leave towards
  \<open>-x\<close>, the cases 4, 12 and 13 towards \<open>+x\<close>, the cases 2, 6 and 14 towards \<open>+y\<close>, the
  cases 8, 9 and 11 towards \<open>-y\<close>, all without a diagnostic. Case 5 leaves towards \<open>+x\<close>
  when the previous row is greater than the current one and towards \<open>-x\<close> when it is
  less; case 10 leaves towards \<open>+y\<close> when the previous column is less than the current
  one and towards \<open>-y\<close> when it is greater. Any other entry into a saddle logs a
  diagnostic and returns the cell unchanged. The tracer calls \<open>followLoop\<close> with the case
  of the current cell and the cell before it, moves to the cell returned and logs what
  was logged.
\<close>

theorem followLoop_exit_table:
  "followLoop 1 px py x y = (Some (x - 1, y), []) \<and>
   followLoop 3 px py x y = (Some (x - 1, y), []) \<and>
   followLoop 7 px py x y = (Some (x - 1, y), []) \<and>
   followLoop 4 px py x y = (Some (x + 1, y), []) \<and>
   followLoop 12 px py x y = (Some (x + 1, y), []) \<and>
   followLoop 13 px py x y = (Some (x + 1, y), []) \<and>
   followLoop 2 px py x y = (Some (x, y + 1), []) \<and>
   followLoop 6 px py x y = (Some (x, y + 1), []) \<and>
   followLoop 14 px py x y = (Some (x, y + 1), []) \<and>
   followLoop 8 px py x y = (Some (x, y - 1), []) \<and>
   followLoop 9 px py x y = (Some (x, y - 1), []) \<and>
   followLoop 11 px py x y = (Some (x, y - 1), []) \<and>
   (py > y \<longrightarrow> followLoop 5 px py x y = (Some (x + 1, y), [])) \<and>
   (py < y \<longrightarrow> followLoop 5 px py x y = (Some (x - 1, y), [])) \<and>
   (py = y \<longrightarrow> followLoop 5 px py x y = (Some (x, y), [Case5WrongDirection])) \<and>
   (px < x \<longrightarrow> followLoop 10 px py x y = (Some (x, y + 1), [])) \<and>
   (px > x \<longrightarrow> followLoop 10 px py x y = (Some (x, y - 1), [])) \<and>
   (px = x \<longrightarrow> followLoop 10 px py x y = (Some (x, y), [Case10WrongDirection])) \<and>
   (idx l = Some i \<and>
    followLoop i (prevx l) (prevy l) (curx l) (cury l) = (Some (x', y'), msgs) \<longrightarrow>
      ring_follow g l =
        Inr (g\<lparr>logged := logged g @ msgs\<rparr>,
             l\<lparr>curx := x', cury := y',
               direction := direction l + (x' - startx l) * (y' + starty l)\<rparr>))"
  by (simp add: followLoop_def ring_follow_def)

text \<open>
  The six ways through a saddle, and the second pass over the hand-written contour grid,
  which enters the saddle from the left.
\<close>

theorem followLoop_exit_table_witness:
  "followLoop 5 0 2 0 1 = (Some (1, 1), []) \<and>
   followLoop 5 0 0 0 1 = (Some (- 1, 1), []) \<and>
   followLoop 5 (- 1) 1 0 1 = (Some (0, 1), [Case5WrongDirection]) \<and>
   followLoop 10 0 1 1 1 = (Some (1, 2), []) \<and>
   followLoop 10 2 1 1 1 = (Some (1, 0), []) \<and>
   followLoop 10 1 0 1 1 = (Some (1, 1), [Case10WrongDirection]) \<and>
   ring_follow (saddle_tracer [Some 4, Some 5] []) (saddle_cursor 0 0 1 5) =
     Inr (saddle_tracer [Some 4, Some 5] [Case5WrongDirection], saddle_cursor 0 0 1 5)"
proof -
  note t = followLoop_exit_table
    [where l = "saddle_cursor 0 0 1 5" and i = 5 and x' = 1 and y' = 0
       and msgs = "[Case5WrongDirection]" and g = "saddle_tracer [Some 4, Some 5] []"]
  have "ring_follow (saddle_tracer [Some 4, Some 5] []) (saddle_cursor 0 0 1 5) =
     Inr (saddle_tracer [Some 4, Some 5] [Case5WrongDirection], saddle_cursor 0 0 1 5)"
    using t [of 0 0 1 0] by (simp add: saddle_cursor_def saddle_tracer_def)
  moreover have "followLoop 5 0 2 0 1 = (Some (1, 1), [])"
    using t [of 0 2 0 1] by simp
  moreover have "followLoop 5 0 0 0 1 = (Some (- 1, 1), [])"
    using t [of 0 0 0 1] by simp
  moreover have "followLoop 5 (- 1) 1 0 1 = (Some (0, 1), [Case5WrongDirection])"
    using t [of "- 1" 1 0 1] by simp
  moreover have "followLoop 10 0 1 1 1 = (Some (1, 2), [])"
    using t [of 0 1 1 1] by simp
  moreover have "followLoop 10 2 1 1 1 = (Some (1, 0), [])"
    using t [of 2 1 1 1] by simp
  moreover have "followLoop 10 1 0 1 1 = (Some (1, 1), [Case10WrongDirection])"
    using t [of 1 0 1 1] by simp
  ultimately show ?thesis by simp
qed

section \<open>Properties of the interpolator\<close>

text \<open>What \<open>ensureFractionIsNumber\<close> replaces: NaN and the positive infinity.\<close>

lemma ensureFractionIsNumber_replaced:
  "ensureFractionIsNumber NaN d = (Fin (1 / 2), [SegmentFractionIs d NaN])"
  "ensureFractionIsNumber Infinity d = (Fin (1 / 2), [SegmentFractionIs d Infinity])"
  "ensureFractionIsNumber (Fin r) d = (Fin r, [])"
  by (simp_all add: ensureFractionIsNumber_def isNaN_def)



text \<open>
  Called on its own with the negative infinity, \<open>ensureFractionIsNumber\<close> returns it
  unchanged and without a diagnostic: the guard tests \<open>isNaN(frac) || frac === Infinity\<close>
  only. \<open>interpolate\<close>, called on its own, produces it from a negative numerator over a
  zero denominator: with cutoff 60 and every sample 100, the cell \<open>(1, 1)\<close> of a 4 by 4
  surface entered from the left gives \<open>(60 - 100) / (100 - 100)\<close>. Neither function is
  exported, and \<open>jsolines\<close> never calls them so: on this surface the contour grid is all
  zeros and no ring is traced (the subsection on finite coordinates treats every run).
\<close>

lemma ensureFractionIsNumber_NegInfinity:
  "ensureFractionIsNumber NegInfinity ''left'' = (NegInfinity, []) \<and>
   js_div (js_sub (Fin 60) (Fin 100)) (js_sub (Fin 100) (Fin 100)) = NegInfinity \<and>
   interpolate (Fin 60) 4 0 1 (replicate 16 100) 4 1 1 = (Some (Fin 1, NegInfinity), [])"
  by (simp add: ensureFractionIsNumber_def isNaN_def interpolate_def interpolate_corners_def
      interpolate_crossing_def surface_at_def u8_load_def)

lemma jsolines_flat_surface:
  "jsolines (\<lambda>pt shell. True)
     \<lparr>cutoff = Fin 60, height = 4, maxCoordinates = MAX_COORDS, project = (\<lambda>c. c),
      interpolation = True, surface = replicate 16 100, width = 4\<rparr> =
   Inr \<lparr>coordinates = [], diagnostics = []\<rparr>"
  by code_simp





text \<open>
  Claim C9. Before any fraction is computed the samples of the corners on the boundary
  are replaced by the cutoff: \<open>x = 0\<close> replaces top-left and bottom-left, \<open>y = 0\<close> top-left
  and top-right, \<open>y = height - 2\<close> bottom-left and bottom-right, \<open>x = width - 2\<close> top-right
  and bottom-right. The crossing is computed from these four values only, so the raw
  sample of a replaced corner has no influence on it.
\<close>

theorem interpolate_boundary_override:
  "interpolate_corners c h sf w x y =
     (if x = 0 \<or> y = 0 then c else surface_at sf (y * w + x),
      if y = 0 \<or> x = w - 2 then c else surface_at sf (y * w + x + 1),
      if x = 0 \<or> y = h - 2 then c else surface_at sf (y * w + x + w),
      if y = h - 2 \<or> x = w - 2 then c else surface_at sf (y * w + x + w + 1)) \<and>
   interpolate c h sx sy sf w x y =
     interpolate_crossing c sx sy x y
       (if x = 0 \<or> y = 0 then c else surface_at sf (y * w + x),
        if y = 0 \<or> x = w - 2 then c else surface_at sf (y * w + x + 1),
        if x = 0 \<or> y = h - 2 then c else surface_at sf (y * w + x + w),
        if y = h - 2 \<or> x = w - 2 then c else surface_at sf (y * w + x + w + 1))"
  by (simp add: interpolate_def interpolate_corners_def Let_def)

text \<open>
  In the block surface the cell \<open>(0, 1)\<close> lies on the left boundary: its left corners count
  as 60 although both samples are 100, its right corners keep their sample 0.
\<close>

theorem interpolate_boundary_override_witness:
  "interpolate_corners (Fin 60) 4 block_surface 4 0 1 = (Fin 60, Fin 0, Fin 60, Fin 0) \<and>
   surface_at block_surface 4 = Fin 100 \<and> surface_at block_surface 8 = Fin 100 \<and>
   interpolate (Fin 60) 4 0 0 block_surface 4 0 1 = (Some (Fin 0, Fin 1), [])"
  using interpolate_boundary_override [of "Fin 60" 4 block_surface 4 0 1 0 0]
  by (simp add: block_surface_def surface_at_def u8_load_def interpolate_crossing_def
      ensureFractionIsNumber_def isNaN_def)

section \<open>Properties of the ring tracer\<close>

text \<open>A ring is closed when it is not empty and ends with its first coordinate.\<close>

definition closed_ring :: "'a list \<Rightarrow> bool" where
  "closed_ring r \<longleftrightarrow> r \<noteq> [] \<and> hd r = last r"

definition closed_polygons :: "'a list list list \<Rightarrow> bool" where
  "closed_polygons ps \<longleftrightarrow> (\<forall>poly \<in> set ps. \<forall>r \<in> set poly. closed_ring r)"

lemma closed_polygons_Nil [simp]: "closed_polygons []"
  by (simp add: closed_polygons_def)

lemma closed_polygons_snoc:
  "closed_polygons (ps @ [poly]) \<longleftrightarrow> closed_polygons ps \<and> (\<forall>r \<in> set poly. closed_ring r)"
  by (auto simp: closed_polygons_def)

lemma closed_ring_push: "cs \<noteq> [] \<Longrightarrow> closed_ring (cs @ [cs ! 0])"
  by (cases cs) (simp_all add: closed_ring_def)

lemma closed_polygons_update:
  assumes "closed_polygons ps" and "k < length ps" and "closed_ring r"
  shows "closed_polygons (ps[k := ps ! k @ [r]])"
proof -
  have "\<And>poly. poly \<in> set (ps[k := ps ! k @ [r]]) \<Longrightarrow> \<forall>q \<in> set poly. closed_ring q"
  proof -
    fix poly assume "poly \<in> set (ps[k := ps ! k @ [r]])"
    then have "poly \<in> set ps \<or> poly = ps ! k @ [r]"
      using set_update_subset_insert by fastforce
    moreover from assms(2) have "ps ! k \<in> set ps" by simp
    ultimately show "\<forall>q \<in> set poly. closed_ring q"
      using assms(1,3) by (auto simp: closed_polygons_def)
  qed
  then show ?thesis by (simp add: closed_polygons_def)
qed

subsection \<open>What one pass changes\<close>

text \<open>Only the closing of a ring touches \<open>shells\<close> and \<open>holes\<close>.\<close>

lemma ring_enter_rings:
  "ring_enter P contour g l = Inr (g1, l1) \<Longrightarrow> shells g1 = shells g \<and> holes g1 = holes g"
  by (auto simp: ring_enter_def Let_def split: if_splits)

lemma ring_enter_rings_Inl:
  "ring_enter P contour g l = Inl (out, g', l') \<Longrightarrow> shells g' = shells g \<and> holes g' = holes g"
  by (auto simp: ring_enter_def Let_def split: if_splits)

lemma ring_follow_rings:
  "ring_follow g l = Inr (g1, l1) \<Longrightarrow> shells g1 = shells g \<and> holes g1 = holes g"
  by (auto simp: ring_follow_def Let_def split: option.splits prod.splits)

lemma ring_follow_rings_Inl:
  "ring_follow g l = Inl (out, g', l') \<Longrightarrow> shells g' = shells g \<and> holes g' = holes g"
  by (auto simp: ring_follow_def Let_def split: option.splits prod.splits)

lemma ring_shift_rings:
  "ring_shift P g l = Inr (g1, l1) \<Longrightarrow> shells g1 = shells g \<and> holes g1 = holes g"
  by (auto simp: ring_shift_def Let_def split: option.splits prod.splits)

lemma ring_shift_rings_Inl:
  "ring_shift P g l = Inl (out, g', l') \<Longrightarrow> shells g' = shells g \<and> holes g' = holes g"
  by (auto simp: ring_shift_def Let_def split: option.splits prod.splits)

lemma ring_advance_rings:
  assumes "ring_advance P contour g l = Inr (g3, l3)"
  shows "shells g3 = shells g \<and> holes g3 = holes g"
proof -
  from assms obtain g1 l1 g2 l2 where
    "ring_enter P contour g l = Inr (g1, l1)" "ring_follow g1 l1 = Inr (g2, l2)"
    "ring_shift P g2 l2 = Inr (g3, l3)"
    by (auto simp: ring_advance_def split: sum.splits prod.splits)
  then show ?thesis
    using ring_enter_rings ring_follow_rings ring_shift_rings by metis
qed

lemma ring_advance_rings_Inl:
  assumes "ring_advance P contour g l = Inl (out, g', l')"
  shows "shells g' = shells g \<and> holes g' = holes g"
proof (cases "ring_enter P contour g l")
  case (Inl r)
  with assms show ?thesis by (auto simp: ring_advance_def dest: ring_enter_rings_Inl)
next
  case (Inr p)
  then obtain g1 l1 where e: "ring_enter P contour g l = Inr (g1, l1)" by (cases p) auto
  note r1 = ring_enter_rings [OF e]
  show ?thesis
  proof (cases "ring_follow g1 l1")
    case (Inl r)
    with assms e have "ring_follow g1 l1 = Inl (out, g', l')" by (simp add: ring_advance_def)
    from ring_follow_rings_Inl [OF this] r1 show ?thesis by simp
  next
    case (Inr q)
    then obtain g2 l2 where f: "ring_follow g1 l1 = Inr (g2, l2)" by (cases q) auto
    with assms e have "ring_shift P g2 l2 = Inl (out, g', l')" by (simp add: ring_advance_def)
    from ring_shift_rings_Inl [OF this] ring_follow_rings [OF f] r1 show ?thesis by simp
  qed
qed

lemma ring_iter_Continue_rings:
  assumes "ring_iter P contour ox oy g l = (Continue, g', l')"
  shows "shells g' = shells g \<and> holes g' = holes g"
proof -
  from assms obtain g3 l3 where
    a: "ring_advance P contour g l = Inr (g3, l3)" and
    f: "ring_finish P ox oy g3 l3 = (Continue, g', l')"
    by (auto simp: ring_iter_def split: sum.splits prod.splits dest: ring_advance_Inl)
  from ring_finish_Continue [OF f] ring_advance_rings [OF a] show ?thesis by simp
qed

text \<open>The cell and the winding direction through the four parts of a pass.\<close>

lemma ring_enter_cursor:
  "ring_enter P contour g l = Inr (g1, l1) \<Longrightarrow>
     curx l1 = curx l \<and> cury l1 = cury l \<and> startx l1 = curx l \<and> starty l1 = cury l \<and>
     direction l1 = direction l"
  by (auto simp: ring_enter_def Let_def split: if_splits)

lemma ring_enter_cursor_Inl:
  "ring_enter P contour g l = Inl (out, g', l') \<Longrightarrow>
     curx l' = curx l \<and> cury l' = cury l \<and> direction l' = direction l"
  by (auto simp: ring_enter_def Let_def split: if_splits)

lemma ring_follow_cursor:
  "ring_follow g1 l1 = Inr (g2, l2) \<Longrightarrow>
     startx l2 = startx l1 \<and> starty l2 = starty l1 \<and>
     direction l2 = direction l1 + (curx l2 - startx l1) * (cury l2 + starty l1)"
  by (auto simp: ring_follow_def Let_def split: option.splits prod.splits)

lemma ring_follow_cursor_Inl: "ring_follow g1 l1 = Inl (out, g', l') \<Longrightarrow> l' = l1"
  by (auto simp: ring_follow_def Let_def split: option.splits prod.splits)

lemma ring_shift_cursor:
  "ring_shift P g2 l2 = Inr (g3, l3) \<Longrightarrow>
     curx l3 = curx l2 \<and> cury l3 = cury l2 \<and> direction l3 = direction l2"
  by (auto simp: ring_shift_def Let_def split: option.splits prod.splits)

lemma ring_shift_cursor_Inl: "ring_shift P g2 l2 = Inl (out, g', l') \<Longrightarrow> l' = l2"
  by (auto simp: ring_shift_def Let_def split: option.splits prod.splits)

lemma ring_finish_cursor:
  "ring_finish P ox oy g3 l3 = (out, g', l') \<Longrightarrow>
     curx l' = curx l3 \<and> cury l' = cury l3 \<and> direction l' = direction l3"
  by (auto simp: ring_finish_def Let_def split: if_splits)

lemma ring_iter_direction:
  assumes it: "ring_iter P contour ox oy g l = (out, g', l')"
  shows "direction l' = direction l + (curx l' - curx l) * (cury l' + cury l)"
proof (cases "ring_enter P contour g l")
  case (Inl r)
  with it have "ring_enter P contour g l = Inl (out, g', l')"
    by (simp add: ring_iter_def ring_advance_def)
  from ring_enter_cursor_Inl [OF this] show ?thesis by simp
next
  case (Inr p)
  then obtain g1 l1 where e: "ring_enter P contour g l = Inr (g1, l1)" by (cases p) auto
  note c1 = ring_enter_cursor [OF e]
  show ?thesis
  proof (cases "ring_follow g1 l1")
    case (Inl r)
    with it e have "ring_follow g1 l1 = Inl (out, g', l')"
      by (simp add: ring_iter_def ring_advance_def)
    from ring_follow_cursor_Inl [OF this] c1 show ?thesis by simp
  next
    case (Inr q)
    then obtain g2 l2 where f: "ring_follow g1 l1 = Inr (g2, l2)" by (cases q) auto
    from ring_follow_cursor [OF f] c1
    have d2: "direction l2 = direction l + (curx l2 - curx l) * (cury l2 + cury l)" by simp
    show ?thesis
    proof (cases "ring_shift P g2 l2")
      case (Inl r)
      with it e f have "ring_shift P g2 l2 = Inl (out, g', l')"
        by (simp add: ring_iter_def ring_advance_def)
      from ring_shift_cursor_Inl [OF this] d2 show ?thesis by simp
    next
      case (Inr t)
      then obtain g3 l3 where s: "ring_shift P g2 l2 = Inr (g3, l3)" by (cases t) auto
      with it e f have "ring_finish P ox oy g3 l3 = (out, g', l')"
        by (simp add: ring_iter_def ring_advance_def)
      from ring_finish_cursor [OF this] ring_shift_cursor [OF s] d2 show ?thesis by simp
    qed
  qed
qed

subsection \<open>The loop\<close>

text \<open>
  The loop started in a state has the result of the loop started in any state it reaches,
  and the passes in between leave \<open>shells\<close> and \<open>holes\<close> alone.
\<close>

lemma ring_steps_while:
  "ring_steps n P contour ox oy g l = Some (gk, lk) \<Longrightarrow>
   ring_while P contour ox oy g l = ring_while P contour ox oy gk lk \<and>
   shells gk = shells g \<and> holes gk = holes g"
proof (induction n arbitrary: g l)
  case 0
  then show ?case by simp
next
  case (Suc n)
  from Suc.prems obtain g' l' where
    it: "ring_iter P contour ox oy g l = (Continue, g', l')" and
    rest: "ring_steps n P contour ox oy g' l' = Some (gk, lk)"
    by (auto split: prod.splits outcome.splits)
  from it have "ring_while P contour ox oy g l = ring_while P contour ox oy g' l'"
    by (subst ring_while.simps) simp
  with Suc.IH [OF rest] ring_iter_Continue_rings [OF it] show ?case by simp
qed

lemma ring_while_Break:
  "ring_iter P contour ox oy g l = (Break, g', l') \<Longrightarrow>
   ring_while P contour ox oy g l = (Break, g')"
  by (subst ring_while.simps) simp

subsection \<open>Closed rings\<close>

text \<open>
  What the scan maintains: every ring among the shells and the holes is closed, and a hole
  is a polygon of exactly one ring.
\<close>

definition rings_invariant :: "'p tracer \<Rightarrow> bool" where
  "rings_invariant g \<longleftrightarrow>
     closed_polygons (shells g) \<and> closed_polygons (holes g) \<and>
     (\<forall>hole \<in> set (holes g). length hole = 1)"

lemma for_each_invariant:
  assumes "\<And>s a s'. I s \<Longrightarrow> body s a = Inr s' \<Longrightarrow> I s'"
    and "I s" and "for_each body as s = Inr s'"
  shows "I s'"
  using assms(2,3)
proof (induction as arbitrary: s)
  case Nil
  then show ?case by simp
next
  case (Cons a as)
  then show ?case by (auto split: sum.splits dest: assms(1))
qed

lemma ring_finish_invariant:
  assumes "ring_finish P ox oy g3 l3 = (out, g', l')" and "coords l3 \<noteq> []"
    and "rings_invariant g3"
  shows "rings_invariant g'"
  using assms
  by (auto simp: ring_finish_def Let_def rings_invariant_def closed_polygons_snoc
      closed_ring_push split: if_splits)

lemma ring_iter_invariant:
  assumes it: "ring_iter P contour ox oy g l = (out, g', l')"
    and inv: "rings_invariant g"
  shows "rings_invariant g'"
proof (cases "ring_advance P contour g l")
  case (Inl r)
  with it have "ring_advance P contour g l = Inl (out, g', l')" by (simp add: ring_iter_def)
  from ring_advance_rings_Inl [OF this] inv show ?thesis by (simp add: rings_invariant_def)
next
  case (Inr p)
  then obtain g3 l3 where a: "ring_advance P contour g l = Inr (g3, l3)" by (cases p) auto
  with it have f: "ring_finish P ox oy g3 l3 = (out, g', l')" by (simp add: ring_iter_def)
  from ring_advance_coords [OF a] have c: "coords l3 \<noteq> []" by auto
  from ring_advance_rings [OF a] inv have "rings_invariant g3"
    by (simp add: rings_invariant_def)
  with f c show ?thesis by (rule ring_finish_invariant)
qed

lemma ring_while_invariant:
  "rings_invariant g \<Longrightarrow> rings_invariant (snd (ring_while P contour ox oy g l))"
proof (induction P contour ox oy g l rule: ring_while.induct)
  case (1 P contour ox oy g l)
  obtain out g' l' where r: "ring_iter P contour ox oy g l = (out, g', l')"
    by (cases "ring_iter P contour ox oy g l") auto
  from ring_iter_invariant [OF r "1.prems"] have inv': "rings_invariant g'" .
  show ?case
  proof (cases "out = Continue")
    case True
    with r "1.IH" [of "(out, g', l')"] inv' show ?thesis
      by (subst ring_while.simps) simp
  next
    case False
    with r inv' show ?thesis
      by (subst ring_while.simps) simp
  qed
qed

lemma scan_cell_invariant:
  assumes "scan_cell P contour oy g ox = Inr g'" and "rings_invariant g"
  shows "rings_invariant g'"
proof -
  let ?i = "u8_load contour (oy * (width P - 1) + ox)"
  let ?r = "ring_while P contour ox oy g (cursor_at ox oy ?i)"
  from assms(1) have "g' = g \<or> g' = snd ?r"
    by (auto simp: scan_cell_def Let_def split: if_splits prod.splits outcome.splits)
  with assms(2) ring_while_invariant [OF assms(2), of P contour ox oy "cursor_at ox oy ?i"]
  show ?thesis by auto
qed

lemma scan_invariant:
  assumes "for_each (\<lambda>g origy. for_each (scan_cell P contour origy) xs g) ys
             \<lparr>found = found0, indices = [], shells = [], holes = [], logged = []\<rparr> = Inr g"
  shows "rings_invariant g"
proof -
  have row: "\<And>s origy s'. rings_invariant s \<Longrightarrow>
      for_each (scan_cell P contour origy) xs s = Inr s' \<Longrightarrow> rings_invariant s'"
  proof -
    fix s :: "'a tracer" and origy s'
    assume s: "rings_invariant s" and r: "for_each (scan_cell P contour origy) xs s = Inr s'"
    show "rings_invariant s'"
    proof (rule for_each_invariant [where I = rings_invariant, OF _ s r])
      fix t :: "'a tracer" and a t'
      assume "rings_invariant t" and "scan_cell P contour origy t a = Inr t'"
      then show "rings_invariant t'" using scan_cell_invariant by blast
    qed
  qed
  have init: "rings_invariant
      \<lparr>found = found0, indices = [], shells = [], holes = [], logged = [] :: diag list\<rparr>"
    by (simp add: rings_invariant_def)
  show ?thesis
    by (rule for_each_invariant [where I = rings_invariant, OF row init assms])
qed

text \<open>\<open>find_index\<close> returns the first position that satisfies the test.\<close>

lemma find_index_Some:
  "find_index p xs = Some k \<Longrightarrow> k < length xs \<and> p (xs ! k) \<and> (\<forall>j < k. \<not> p (xs ! j))"
proof (induction xs arbitrary: k)
  case Nil
  then show ?case by simp
next
  case (Cons a as)
  show ?case
  proof (cases "p a")
    case True
    with Cons.prems show ?thesis by simp
  next
    case False
    with Cons.prems obtain k' where k': "find_index p as = Some k'" "k = Suc k'" by auto
    from Cons.IH [OF k'(1)] False k'(2) show ?thesis
      by (auto simp: nth_Cons split: nat.splits)
  qed
qed



lemma nest_hole_closed:
  assumes "nest_hole inside g hole = Inr g'"
    and "\<forall>r \<in> set hole. closed_ring r" and "closed_polygons (shells g)"
  shows "closed_polygons (shells g')"
  using assms
  by (auto simp: nest_hole_def closed_polygons_update
      split: list.splits option.splits dest: find_index_Some)

lemma nest_holes_closed:
  assumes "for_each (nest_hole inside) hs g = Inr g'"
    and "closed_polygons hs" and "closed_polygons (shells g)"
  shows "closed_polygons (shells g')"
  using assms
proof (induction hs arbitrary: g)
  case Nil
  then show ?case by simp
next
  case (Cons h hs)
  from Cons.prems(1) obtain g1 where
    h: "nest_hole inside g h = Inr g1" and rest: "for_each (nest_hole inside) hs g1 = Inr g'"
    by (auto split: sum.splits)
  from Cons.prems(2) have ch: "\<forall>r \<in> set h. closed_ring r" and chs: "closed_polygons hs"
    by (simp_all add: closed_polygons_def)
  show ?case
    by (rule Cons.IH [OF rest chs nest_hole_closed [OF h ch Cons.prems(3)]])
qed

lemma jsolines_closed:
  assumes "jsolines inside P = Inr out"
  shows "closed_polygons (coordinates out)"
proof -
  from assms obtain contour found0 g g' where
    scan: "for_each (\<lambda>g origy. for_each (scan_cell P contour origy) [0..width P - 2] g)
             [0..height P - 2]
             \<lparr>found = found0, indices = [], shells = [], holes = [], logged = []\<rparr> = Inr g"
    and nest: "for_each (nest_hole inside) (holes g) g = Inr g'"
    and out: "out = \<lparr>coordinates = shells g', diagnostics = logged g'\<rparr>"
    by (auto simp: jsolines_def split: sum.splits)
  from scan_invariant [OF scan] have "closed_polygons (holes g)" "closed_polygons (shells g)"
    by (simp_all add: rings_invariant_def)
  with nest_holes_closed [OF nest] out show ?thesis by simp
qed

text \<open>
  Once the scan has returned, the nester returns too: every hole it meets has one ring
  with a first coordinate.
\<close>

lemma nest_hole_returns:
  assumes "length hole = 1" and "\<forall>r \<in> set hole. closed_ring r"
  shows "\<exists>g'. nest_hole inside g hole = Inr g' \<and> holes g' = holes g"
proof -
  from assms obtain c cs where "hole = [c # cs]"
    by (cases hole; cases "hd hole") (auto simp: closed_ring_def)
  then show ?thesis by (simp add: nest_hole_def split: option.splits)
qed

lemma nest_holes_return:
  assumes "closed_polygons hs" and "\<forall>hole \<in> set hs. length hole = 1"
  shows "\<exists>g'. for_each (nest_hole inside) hs g = Inr g'"
  using assms
proof (induction hs arbitrary: g)
  case Nil
  then show ?case by simp
next
  case (Cons h hs)
  from Cons.prems have "length h = 1" "\<forall>r \<in> set h. closed_ring r"
    by (simp_all add: closed_polygons_def)
  from nest_hole_returns [OF this] obtain g1 where "nest_hole inside g h = Inr g1" by blast
  moreover from Cons.prems have "closed_polygons hs" "\<forall>hole \<in> set hs. length hole = 1"
    by (simp_all add: closed_polygons_def)
  from Cons.IH [OF this] obtain g' where "for_each (nest_hole inside) hs g1 = Inr g'" by blast
  ultimately show ?case by simp
qed

lemma jsolines_nester_returns:
  assumes "getContour (surface P) (width P) (height P) (cutoff P) = Inr contour"
    and "new_Uint8Array ((width P - 1) * (height P - 1)) = Inr found0"
    and "for_each (\<lambda>g origy. for_each (scan_cell P contour origy) [0..width P - 2] g)
           [0..height P - 2]
           \<lparr>found = found0, indices = [], shells = [], holes = [], logged = []\<rparr> = Inr g"
  shows "\<exists>out. jsolines inside P = Inr out"
proof -
  from scan_invariant [OF assms(3)]
  have "closed_polygons (holes g)" "\<forall>hole \<in> set (holes g). length hole = 1"
    by (simp_all add: rings_invariant_def)
  from nest_holes_return [OF this] obtain g' where
    "for_each (nest_hole inside) (holes g) g = Inr g'" by blast
  with assms show ?thesis by (simp add: jsolines_def)
qed

text \<open>When there is no coordinate for the step.\<close>

lemma interpolate_Some_iff:
  "fst (interpolate c h sx sy sf w x y) \<noteq> None \<longleftrightarrow> sx \<noteq> x \<or> sy \<noteq> y"
  by (auto simp: interpolate_def interpolate_crossing_def split: prod.splits)

lemma noInterpolate_Some_iff: "noInterpolate sx sy x y \<noteq> None \<longleftrightarrow> sx \<noteq> x \<or> sy \<noteq> y"
  by (auto simp: noInterpolate_def)

lemma ring_coord_Some_iff:
  "fst (ring_coord P l) \<noteq> None \<longleftrightarrow> startx l \<noteq> curx l \<or> starty l \<noteq> cury l"
  using interpolate_Some_iff noInterpolate_Some_iff by (simp add: ring_coord_def)

lemma ring_coord_None:
  "startx l = curx l \<Longrightarrow> starty l = cury l \<Longrightarrow> ring_coord P l = (None, [])"
  by (simp add: ring_coord_def interpolate_def interpolate_crossing_def noInterpolate_def
      split: prod.splits)

subsection \<open>Finite coordinates\<close>












































section \<open>The claims about the tracer and the nester\<close>



text \<open>
  Claim C4. In every pass of the loop the winding direction grows by
  \<open>(newX - oldX) * (newY + oldY)\<close> (by nothing when the pass ends before the step). When a
  pass has appended its coordinate, is within the size limit and is back at the starting
  cell, the ring is closed and appended to the shells iff the direction is strictly
  positive, and to the holes otherwise; with direction zero the loop ends with the ring
  among the holes.
\<close>

theorem winding_direction_classifies_ring:
  "(ring_iter P contour ox oy g l = (out, g', l') \<longrightarrow>
      direction l' = direction l + (curx l' - curx l) * (cury l' + cury l)) \<and>
   (ring_advance P contour g l = Inr (g3, l3) \<and> \<not> int (length (coords l3)) > maxCoordinates P \<and>
    curx l3 = ox \<and> cury l3 = oy \<longrightarrow>
      (direction l3 > 0 \<longrightarrow>
         ring_iter P contour ox oy g l =
           (Break, g3\<lparr>shells := shells g3 @ [[coords l3 @ [coords l3 ! 0]]]\<rparr>,
            l3\<lparr>coords := coords l3 @ [coords l3 ! 0]\<rparr>)) \<and>
      (\<not> direction l3 > 0 \<longrightarrow>
         ring_iter P contour ox oy g l =
           (Break, g3\<lparr>holes := holes g3 @ [[coords l3 @ [coords l3 ! 0]]]\<rparr>,
            l3\<lparr>coords := coords l3 @ [coords l3 ! 0]\<rparr>)) \<and>
      (direction l3 = 0 \<longrightarrow>
         ring_while P contour ox oy g l =
           (Break, g3\<lparr>holes := holes g3 @ [[coords l3 @ [coords l3 ! 0]]]\<rparr>)))"
proof (intro conjI impI)
  assume "ring_iter P contour ox oy g l = (out, g', l')"
  then show "direction l' = direction l + (curx l' - curx l) * (cury l' + cury l)"
    by (rule ring_iter_direction)
next
  assume a: "ring_advance P contour g l = Inr (g3, l3) \<and>
    \<not> int (length (coords l3)) > maxCoordinates P \<and> curx l3 = ox \<and> cury l3 = oy"
  {
    assume "direction l3 > 0"
    with a show "ring_iter P contour ox oy g l =
        (Break, g3\<lparr>shells := shells g3 @ [[coords l3 @ [coords l3 ! 0]]]\<rparr>,
         l3\<lparr>coords := coords l3 @ [coords l3 ! 0]\<rparr>)"
      by (simp add: ring_iter_def ring_finish_def Let_def)
  next
    assume "\<not> direction l3 > 0"
    with a show "ring_iter P contour ox oy g l =
        (Break, g3\<lparr>holes := holes g3 @ [[coords l3 @ [coords l3 ! 0]]]\<rparr>,
         l3\<lparr>coords := coords l3 @ [coords l3 ! 0]\<rparr>)"
      by (simp add: ring_iter_def ring_finish_def Let_def)
  next
    assume "direction l3 = 0"
    with a have "ring_iter P contour ox oy g l =
        (Break, g3\<lparr>holes := holes g3 @ [[coords l3 @ [coords l3 ! 0]]]\<rparr>,
         l3\<lparr>coords := coords l3 @ [coords l3 ! 0]\<rparr>)"
      by (simp add: ring_iter_def ring_finish_def Let_def)
    then show "ring_while P contour ox oy g l =
        (Break, g3\<lparr>holes := holes g3 @ [[coords l3 @ [coords l3 ! 0]]]\<rparr>)"
      by (rule ring_while_Break)
  }
qed

text \<open>
  The last pass of the trace of the first example closes the ring with direction 2, as a
  shell. The same pass started with the accumulator at 0 instead of 2 closes it with
  direction 0, as a hole.
\<close>

theorem winding_direction_classifies_ring_witness:
  "ring_iter (dot_params MAX_COORDS) dot_contour 0 0
      (dot_tracer [1, 0, 1, 1] [Some 2, Some 4, Some 8]) (dot_cursor 2) =
     (Break,
      (dot_tracer [1, 1, 1, 1] [Some 2, Some 4, Some 8, Some 1])
        \<lparr>shells := [[dot_ring @ [dot_ring ! 0]]]\<rparr>,
      dot_cursor_last 2 (dot_ring @ [dot_ring ! 0])) \<and>
   direction (dot_cursor_last 2 (dot_ring @ [dot_ring ! 0])) =
     direction (dot_cursor 2) + (0 - 1) * (0 + 0) \<and>
   ring_iter (dot_params MAX_COORDS) dot_contour 0 0
      (dot_tracer [1, 0, 1, 1] [Some 2, Some 4, Some 8]) (dot_cursor 0) =
     (Break,
      (dot_tracer [1, 1, 1, 1] [Some 2, Some 4, Some 8, Some 1])
        \<lparr>holes := [[dot_ring @ [dot_ring ! 0]]]\<rparr>,
      dot_cursor_last 0 (dot_ring @ [dot_ring ! 0])) \<and>
   ring_while (dot_params MAX_COORDS) dot_contour 0 0
      (dot_tracer [1, 0, 1, 1] [Some 2, Some 4, Some 8]) (dot_cursor 0) =
     (Break,
      (dot_tracer [1, 1, 1, 1] [Some 2, Some 4, Some 8, Some 1])
        \<lparr>holes := [[dot_ring @ [dot_ring ! 0]]]\<rparr>)"
proof -
  let ?P = "dot_params MAX_COORDS"
  let ?g = "dot_tracer [1, 0, 1, 1] [Some 2, Some 4, Some 8]"
  let ?g3 = "dot_tracer [1, 1, 1, 1] [Some 2, Some 4, Some 8, Some 1]"
  have a2: "ring_advance ?P dot_contour ?g (dot_cursor 2) = Inr (?g3, dot_cursor_last 2 dot_ring)"
    by code_simp
  have a0: "ring_advance ?P dot_contour ?g (dot_cursor 0) = Inr (?g3, dot_cursor_last 0 dot_ring)"
    by code_simp
  have len: "\<not> int (length dot_ring) > maxCoordinates ?P"
    by (simp add: dot_ring_def dot_params_def MAX_COORDS_def)
  have upd: "(dot_cursor_last d dot_ring)\<lparr>coords := dot_ring @ [dot_ring ! 0]\<rparr> =
      dot_cursor_last d (dot_ring @ [dot_ring ! 0])" for d
    by (simp add: dot_cursor_last_def)
  have sh: "shells ?g3 = []" "holes ?g3 = []" by (simp_all add: dot_tracer_def)
  note w2 = winding_direction_classifies_ring
    [of ?P dot_contour 0 0 ?g "dot_cursor 2" Break
      "?g3\<lparr>shells := [[dot_ring @ [dot_ring ! 0]]]\<rparr>"
      "dot_cursor_last 2 (dot_ring @ [dot_ring ! 0])" ?g3 "dot_cursor_last 2 dot_ring"]
  note w0 = winding_direction_classifies_ring
    [of ?P dot_contour 0 0 ?g "dot_cursor 0" Break
      "?g3\<lparr>holes := [[dot_ring @ [dot_ring ! 0]]]\<rparr>"
      "dot_cursor_last 0 (dot_ring @ [dot_ring ! 0])" ?g3 "dot_cursor_last 0 dot_ring"]
  from w2 a2 len have i2: "ring_iter ?P dot_contour 0 0 ?g (dot_cursor 2) =
      (Break, ?g3\<lparr>shells := [[dot_ring @ [dot_ring ! 0]]]\<rparr>,
       dot_cursor_last 2 (dot_ring @ [dot_ring ! 0]))"
    by (simp add: upd sh) (simp add: dot_cursor_last_def)
  from w0 a0 len have i0: "ring_iter ?P dot_contour 0 0 ?g (dot_cursor 0) =
      (Break, ?g3\<lparr>holes := [[dot_ring @ [dot_ring ! 0]]]\<rparr>,
       dot_cursor_last 0 (dot_ring @ [dot_ring ! 0]))"
    and wh: "ring_while ?P dot_contour 0 0 ?g (dot_cursor 0) =
      (Break, ?g3\<lparr>holes := [[dot_ring @ [dot_ring ! 0]]]\<rparr>)"
    by (simp_all add: upd sh) (simp_all add: dot_cursor_last_def)
  from w2 i2 have "direction (dot_cursor_last 2 (dot_ring @ [dot_ring ! 0])) =
     direction (dot_cursor 2) + (0 - 1) * (0 + 0)"
    by (simp add: dot_cursor_last_def dot_cursor_def)
  with i2 i0 wh show ?thesis by simp
qed

text \<open>
  Claim C6. Every ring of the returned geometry, the first ring of a polygon (the shell)
  as well as the rings appended to it by the nester (the holes), is not empty and has its
  first coordinate as its last one; this holds for every input on which \<open>jsolines\<close>
  returns, also when the region below the cutoff touches the edge of the grid.
\<close>

theorem jsolines_rings_closed:
  assumes "jsolines inside P = Inr out"
    and "poly \<in> set (coordinates out)" and "ring \<in> set poly"
  shows "ring \<noteq> [] \<and> hd ring = last ring"
  using jsolines_closed [OF assms(1)] assms(2,3)
  by (auto simp: closed_polygons_def closed_ring_def)

theorem jsolines_rings_closed_witness:
  "jsolines (\<lambda>pt shell. True) ring_params =
     Inr \<lparr>coordinates = [[ring_shell, ring_hole]], diagnostics = []\<rparr> \<and>
   ring_shell \<noteq> [] \<and> hd ring_shell = last ring_shell \<and>
   ring_hole \<noteq> [] \<and> hd ring_hole = last ring_hole"
  using jsolines_rings_closed [OF jsolines_ring_params, of "[ring_shell, ring_hole]" ring_shell]
    jsolines_rings_closed [OF jsolines_ring_params, of "[ring_shell, ring_hole]" ring_hole]
    jsolines_ring_params
  by simp

text \<open>
  Claim C7. When, in some pass of a trace started by the scan, the number of coordinates
  after the \<open>push\<close> exceeds \<open>maxCoordinates\<close>, the trace ends there: the body of the scan
  returns normally, \<open>shells\<close> and \<open>holes\<close> are what they were before the trace, the
  diagnostic is the last thing logged, and the scan goes on with the cells that follow.
  The default \<open>MAX_COORDS\<close> lies between 10000 and 20000. (The closing copy of the first
  coordinate is appended after this guard, so a closed ring holds at most
  \<open>maxCoordinates + 1\<close> coordinates.)
\<close>

theorem ring_size_guard_discards_ring:
  assumes "u8_load (found g) (oy * (width P - 1) + ox) \<noteq> Some 1"
    and "u8_load contour (oy * (width P - 1) + ox) = i"
    and "i \<noteq> Some 0" and "i \<noteq> Some 5" and "i \<noteq> Some 10" and "i \<noteq> Some 15"
    and "ring_steps n P contour ox oy g (cursor_at ox oy i) = Some (gk, lk)"
    and "ring_advance P contour gk lk = Inr (g3, l3)"
    and "int (length (coords l3)) > maxCoordinates P"
  shows "scan_cell P contour oy g ox =
           Inr (g3\<lparr>logged := logged g3 @ [RingCoordinatesExceed (maxCoordinates P)]\<rparr>) \<and>
         for_each (scan_cell P contour oy) (ox # rest) g =
           for_each (scan_cell P contour oy) rest
             (g3\<lparr>logged := logged g3 @ [RingCoordinatesExceed (maxCoordinates P)]\<rparr>) \<and>
         shells g3 = shells g \<and> holes g3 = holes g \<and>
         10000 \<le> MAX_COORDS \<and> MAX_COORDS \<le> 20000"
proof -
  let ?g' = "g3\<lparr>logged := logged g3 @ [RingCoordinatesExceed (maxCoordinates P)]\<rparr>"
  from assms(8,9) have "ring_iter P contour ox oy gk lk = (Break, ?g', l3)"
    by (simp add: ring_iter_def ring_finish_def)
  then have "ring_while P contour ox oy gk lk = (Break, ?g')"
    by (rule ring_while_Break)
  with ring_steps_while [OF assms(7)]
  have w: "ring_while P contour ox oy g (cursor_at ox oy i) = (Break, ?g')"
    and r: "shells gk = shells g" "holes gk = holes g"
    by simp_all
  from w assms(1-6) have s: "scan_cell P contour oy g ox = Inr ?g'"
    by (simp add: scan_cell_def Let_def)
  from ring_advance_rings [OF assms(8)] r have "shells g3 = shells g \<and> holes g3 = holes g"
    by simp
  with s show ?thesis by (simp add: MAX_COORDS_def)
qed

text \<open>
  With \<open>maxCoordinates = 2\<close> the third pass of the trace of the first example exceeds the
  limit, and \<open>jsolines\<close> returns no polygon.
\<close>

theorem ring_size_guard_discards_ring_witness:
  "scan_cell (dot_params 2) dot_contour 0 (fresh_tracer 4) 0 =
     Inr ((dot_tracer [1, 0, 1, 1] [Some 2, Some 4, Some 8])
            \<lparr>logged := [RingCoordinatesExceed 2]\<rparr>) \<and>
   for_each (scan_cell (dot_params 2) dot_contour 0) [0, 1] (fresh_tracer 4) =
     for_each (scan_cell (dot_params 2) dot_contour 0) [1]
       ((dot_tracer [1, 0, 1, 1] [Some 2, Some 4, Some 8])\<lparr>logged := [RingCoordinatesExceed 2]\<rparr>) \<and>
   jsolines (\<lambda>pt shell. True) (dot_params 2) =
     Inr \<lparr>coordinates = [],
          diagnostics = [RingCoordinatesExceed 2, RingCrossesRing 0 0 (Some 1),
                         LastFewIndices [Some 2, Some 4, Some 8, Some 1]]\<rparr>"
proof -
  have f: "u8_load (found (fresh_tracer 4)) (0 * (width (dot_params 2) - 1) + 0) \<noteq> Some 1"
    by code_simp
  have i: "u8_load dot_contour (0 * (width (dot_params 2) - 1) + 0) = Some 2"
    by code_simp
  have over: "int (length (coords (dot_cursor 2))) > maxCoordinates (dot_params 2)"
    by (simp add: dot_cursor_def dot_ring_def dot_params_def)
  have mc: "maxCoordinates (dot_params 2) = 2" by (simp add: dot_params_def)
  have lg: "logged (dot_tracer [1, 0, 1, 1] [Some 2, Some 4, Some 8]) @ [RingCoordinatesExceed 2] =
      [RingCoordinatesExceed 2]"
    by (simp add: dot_tracer_def)
  note t = ring_size_guard_discards_ring
    [OF f i _ _ _ _ dot_steps_2 dot_advance_3 over, of "[1]", unfolded mc lg]
  from t jsolines_dot_params(1) show ?thesis by (simp del: for_each.simps)
qed



text \<open>
  Claim C10. \<open>interpolate\<close> and \<open>noInterpolate\<close> return a coordinate iff the new cell
  differs from the previous one (\<open>startx \<noteq> x\<close> or \<open>starty \<noteq> y\<close>), and so does the choice
  between them made by the tracer. When a trace reaches a pass whose step leaves the cell
  unchanged, the loop ends with \<open>shells\<close> and \<open>holes\<close> as they were at the start of the
  trace and with the diagnostic of the discarded ring logged last.
\<close>

theorem unchanged_cell_discards_ring:
  "(fst (interpolate c h sx sy sf w x y) \<noteq> None \<longleftrightarrow> sx \<noteq> x \<or> sy \<noteq> y) \<and>
   (noInterpolate sx sy x y \<noteq> None \<longleftrightarrow> sx \<noteq> x \<or> sy \<noteq> y) \<and>
   (fst (ring_coord P l) \<noteq> None \<longleftrightarrow> startx l \<noteq> curx l \<or> starty l \<noteq> cury l) \<and>
   (ring_steps n P contour ox oy g l0 = Some (gk, lk) \<and>
    ring_enter P contour gk lk = Inr (g1, l1) \<and> ring_follow g1 l1 = Inr (g2, l2) \<and>
    curx l2 = startx l2 \<and> cury l2 = starty l2 \<longrightarrow>
      ring_while P contour ox oy g l0 =
        (Break, g2\<lparr>logged := logged g2 @
           [UnexpectedCoordinateShift (startx l2) (starty l2) (curx l2) (cury l2)]\<rparr>) \<and>
      shells g2 = shells g \<and> holes g2 = holes g)"
proof (intro conjI impI)
  assume a: "ring_steps n P contour ox oy g l0 = Some (gk, lk) \<and>
    ring_enter P contour gk lk = Inr (g1, l1) \<and> ring_follow g1 l1 = Inr (g2, l2) \<and>
    curx l2 = startx l2 \<and> cury l2 = starty l2"
  let ?g' = "g2\<lparr>logged := logged g2 @
           [UnexpectedCoordinateShift (startx l2) (starty l2) (curx l2) (cury l2)]\<rparr>"
  from a have "ring_coord P l2 = (None, [])" by (simp add: ring_coord_None)
  with a have "ring_iter P contour ox oy gk lk = (Break, ?g', l2)"
    by (simp add: ring_iter_def ring_advance_def ring_shift_def)
  then have "ring_while P contour ox oy gk lk = (Break, ?g')" by (rule ring_while_Break)
  with a ring_steps_while [of n P contour ox oy g l0 gk lk]
  show "ring_while P contour ox oy g l0 = (Break, ?g')" by simp
  from a ring_steps_while [of n P contour ox oy g l0 gk lk]
    ring_enter_rings [of P contour gk lk g1 l1] ring_follow_rings [of g1 l1 g2 l2]
  show "shells g2 = shells g" "holes g2 = holes g" by simp_all
qed (rule interpolate_Some_iff noInterpolate_Some_iff ring_coord_Some_iff)+

theorem unchanged_cell_discards_ring_witness:
  "ring_while saddle_params [4, 5] 0 0 (fresh_tracer 2) (cursor_at 0 0 (Some 4)) =
     (Break, saddle_tracer [Some 4, Some 5]
               [Case5WrongDirection, UnexpectedCoordinateShift 1 0 1 0]) \<and>
   noInterpolate 1 0 1 0 = None \<and>
   fst (interpolate (Fin 60) 4 1 0 block_surface 4 1 0) = None \<and>
   noInterpolate 0 0 1 0 = Some (Fin 1, Fin (1 / 2))"
proof -
  note t = unchanged_cell_discards_ring
      [of "Fin 60" 4 1 0 block_surface 4 1 0 saddle_params "saddle_cursor 0 0 1 5" 1 "[4, 5]" 0 0
          "fresh_tracer 2" "cursor_at 0 0 (Some 4)" "saddle_tracer [Some 4] []"
          "saddle_cursor (- 1) (- 1) 0 4" "saddle_tracer [Some 4, Some 5] []"
          "saddle_cursor 0 0 1 5" "saddle_tracer [Some 4, Some 5] [Case5WrongDirection]"
          "saddle_cursor 0 0 1 5"]
  have held: "curx (saddle_cursor 0 0 1 5) = startx (saddle_cursor 0 0 1 5)"
    "cury (saddle_cursor 0 0 1 5) = starty (saddle_cursor 0 0 1 5)"
    by (simp_all add: saddle_cursor_def)
  from t saddle_steps held
  have "ring_while saddle_params [4, 5] 0 0 (fresh_tracer 2) (cursor_at 0 0 (Some 4)) =
      (Break, (saddle_tracer [Some 4, Some 5] [Case5WrongDirection])
         \<lparr>logged := logged (saddle_tracer [Some 4, Some 5] [Case5WrongDirection]) @
            [UnexpectedCoordinateShift (startx (saddle_cursor 0 0 1 5))
               (starty (saddle_cursor 0 0 1 5)) (curx (saddle_cursor 0 0 1 5))
               (cury (saddle_cursor 0 0 1 5))]\<rparr>)"
    by blast
  then have w: "ring_while saddle_params [4, 5] 0 0 (fresh_tracer 2) (cursor_at 0 0 (Some 4)) =
     (Break, saddle_tracer [Some 4, Some 5]
               [Case5WrongDirection, UnexpectedCoordinateShift 1 0 1 0])"
    by (simp add: saddle_cursor_def saddle_tracer_def)
  from t have n: "noInterpolate 1 0 1 0 = None"
    and i: "fst (interpolate (Fin 60) 4 1 0 block_surface 4 1 0) = None"
    by blast+
  have "noInterpolate 0 0 1 0 = Some (Fin 1, Fin (1 / 2))"
    by (simp add: noInterpolate_def)
  with w n i show ?thesis by simp
qed

end
